theory Spec2Isabelle
  imports Complex_Main
begin

section \<open>JavaScript strings\<close>

text \<open>
  A JavaScript string is a sequence of UTF-16 code units: \<open>length\<close>, \<open>slice\<close> and regular
  expressions without the \<open>u\<close> flag all count and match code units. A string is therefore a
  list of code-unit values. Values from \<open>2 ^ 16\<close> on never occur in a JavaScript string;
  nothing below depends on their absence.
\<close>

type_synonym code_unit = nat
type_synonym jsstring = "code_unit list"

definition js :: "string \<Rightarrow> jsstring" where
  \<comment> \<open>an ASCII literal as a JavaScript string\<close>
  "js s = map of_char s"

definition isDigit :: "code_unit \<Rightarrow> bool" where
  \<comment> \<open>\<open>\d\<close> and \<open>0-9\<close>\<close>
  "isDigit c \<longleftrightarrow> 48 \<le> c \<and> c \<le> 57"

definition isLower :: "code_unit \<Rightarrow> bool" where
  \<comment> \<open>\<open>a-z\<close>\<close>
  "isLower c \<longleftrightarrow> 97 \<le> c \<and> c \<le> 122"

definition isUpper :: "code_unit \<Rightarrow> bool" where
  \<comment> \<open>\<open>A-Z\<close>\<close>
  "isUpper c \<longleftrightarrow> 65 \<le> c \<and> c \<le> 90"

definition isWhiteSpace :: "code_unit \<Rightarrow> bool" where
  \<comment> \<open>\<open>\s\<close>, and what \<open>trim\<close> removes: ECMAScript WhiteSpace and LineTerminator\<close>
  "isWhiteSpace c \<longleftrightarrow>
     c = 9 \<or> c = 10 \<or> c = 11 \<or> c = 12 \<or> c = 13 \<or> c = 32 \<or> c = 160 \<or> c = 5760 \<or>
     (8192 \<le> c \<and> c \<le> 8202) \<or> c = 8232 \<or> c = 8233 \<or> c = 8239 \<or> c = 8287 \<or>
     c = 12288 \<or> c = 65279"

definition isLineTerminator :: "code_unit \<Rightarrow> bool" where
  \<comment> \<open>the code units that \<open>.\<close> does not match\<close>
  "isLineTerminator c \<longleftrightarrow> c = 10 \<or> c = 13 \<or> c = 8232 \<or> c = 8233"

definition trim :: "jsstring \<Rightarrow> jsstring" where
  "trim s = rev (dropWhile isWhiteSpace (rev (dropWhile isWhiteSpace s)))"

definition asciiLower :: "jsstring \<Rightarrow> jsstring" where
  \<comment> \<open>\<open>A-Z\<close> to \<open>a-z\<close>, everything else as it is\<close>
  "asciiLower s = map (\<lambda>c. if isUpper c then c + 32 else c) s"

definition toLowerCase :: "(jsstring \<Rightarrow> jsstring) \<Rightarrow> jsstring \<Rightarrow> jsstring" where
  \<comment> \<open>\<open>s.toLowerCase()\<close>. On a string of ASCII code units it lowers \<open>A-Z\<close>; on any other string
      the result comes from the engine's Unicode tables, the parameter \<open>unicodeLower\<close>.\<close>
  "toLowerCase unicodeLower s =
     (if list_all (\<lambda>c. c < 128) s then asciiLower s else unicodeLower s)"

function replaceRuns :: "(code_unit \<Rightarrow> bool) \<Rightarrow> code_unit \<Rightarrow> jsstring \<Rightarrow> jsstring" where
  \<comment> \<open>\<open>.replace(/[cls]+/g, r)\<close>: every maximal run of the class becomes one \<open>r\<close>\<close>
  "replaceRuns cls r [] = []"
| "replaceRuns cls r (c # cs) =
     (if cls c then r # replaceRuns cls r (dropWhile cls cs) else c # replaceRuns cls r cs)"
  by pat_completeness auto
termination
  by (relation "measure (\<lambda>(cls, r, s). length s)")
     (auto simp: le_imp_less_Suc length_dropWhile_le)

section \<open>The sanitizer (\<open>AIFilenameService.sanitizeFilename\<close>, src/ai-filename.ts)\<close>

definition firstLine :: "jsstring \<Rightarrow> jsstring" where
  \<comment> \<open>\<open>input.split('\n')[0] || ''\<close>\<close>
  "firstLine input = takeWhile (\<lambda>c. c \<noteq> 10) input"

definition stripQuotes :: "jsstring \<Rightarrow> jsstring" where
  \<comment> \<open>\<open>.replace(/[`"']/g, '')\<close>\<close>
  "stripQuotes s = filter (\<lambda>c. c \<noteq> 96 \<and> c \<noteq> 34 \<and> c \<noteq> 39) s"

definition isExtChar :: "code_unit \<Rightarrow> bool" where
  \<comment> \<open>\<open>[a-z0-9]\<close> under the \<open>i\<close> flag\<close>
  "isExtChar c \<longleftrightarrow> isLower c \<or> isUpper c \<or> isDigit c"

fun stripExtension :: "jsstring \<Rightarrow> jsstring" where
  \<comment> \<open>\<open>.replace(/\.[a-z0-9]+$/i, '')\<close>: the leftmost dot that is followed, up to the end of
      the string, by one or more letters and digits is removed with all that follows\<close>
  "stripExtension [] = []"
| "stripExtension (c # cs) =
     (if c = 46 \<and> cs \<noteq> [] \<and> list_all isExtChar cs then [] else c # stripExtension cs)"

definition blankOthers :: "jsstring \<Rightarrow> jsstring" where
  \<comment> \<open>\<open>.replace(/[^a-z0-9\-\s_]/g, ' ')\<close>\<close>
  "blankOthers s =
     map (\<lambda>c. if isLower c \<or> isDigit c \<or> c = 45 \<or> isWhiteSpace c \<or> c = 95 then c else 32) s"

definition stripEdgeHyphens :: "jsstring \<Rightarrow> jsstring" where
  \<comment> \<open>\<open>.replace(/^-|-$/g, '')\<close>: one hyphen at the start, then one at the end\<close>
  "stripEdgeHyphens s =
     (let s1 = (if s \<noteq> [] \<and> hd s = 45 then tl s else s)
      in if s1 \<noteq> [] \<and> last s1 = 45 then butlast s1 else s1)"

definition sanitizeFilename :: "(jsstring \<Rightarrow> jsstring) \<Rightarrow> jsstring \<Rightarrow> jsstring option" where
  \<comment> \<open>the chain of the method, step by step; \<open>lc\<close> is the engine's lowercasing of strings
      that are not ASCII\<close>
  "sanitizeFilename lc input =
     (let trimmed = trim (firstLine input);
          lowered = toLowerCase lc trimmed;
          unquoted = stripQuotes lowered;
          noExtension = stripExtension unquoted;
          blanked = blankOthers noExtension;
          hyphenated = replaceRuns (\<lambda>c. isWhiteSpace c \<or> c = 95) 45 blanked;
          collapsed = replaceRuns (\<lambda>c. c = 45) 45 hyphenated;
          stripped = stripEdgeHyphens collapsed;
          sliced = take 60 stripped;
          cleaned = stripEdgeHyphens sliced
      in if cleaned = [] then None else Some cleaned)"

definition sanitizeFilename_part000 :: "(jsstring \<Rightarrow> jsstring) \<Rightarrow> jsstring \<Rightarrow> jsstring option" where
  \<comment> \<open>\<open>sanitizeFilename\<close> as the copy of the class in the unnamed source part has it: the
      chain ends with \<open>.slice(0, 60)\<close>\<close>
  "sanitizeFilename_part000 lc input =
     (let trimmed = trim (firstLine input);
          lowered = toLowerCase lc trimmed;
          unquoted = stripQuotes lowered;
          noExtension = stripExtension unquoted;
          blanked = blankOthers noExtension;
          hyphenated = replaceRuns (\<lambda>c. isWhiteSpace c \<or> c = 95) 45 blanked;
          collapsed = replaceRuns (\<lambda>c. c = 45) 45 hyphenated;
          stripped = stripEdgeHyphens collapsed;
          cleaned = take 60 stripped
      in if cleaned = [] then None else Some cleaned)"

subsection \<open>The stem pattern\<close>

definition isAlnum :: "code_unit \<Rightarrow> bool" where
  \<comment> \<open>\<open>[a-z0-9]\<close>\<close>
  "isAlnum c \<longleftrightarrow> isLower c \<or> isDigit c"

inductive hyphenWords :: "jsstring \<Rightarrow> bool" where
  \<comment> \<open>the strings that \<open>(-[a-z0-9]+)*\<close> matches\<close>
  none: "hyphenWords []"
| more: "w \<noteq> [] \<Longrightarrow> list_all isAlnum w \<Longrightarrow> hyphenWords r \<Longrightarrow> hyphenWords (45 # w @ r)"

definition matchesStemPattern :: "jsstring \<Rightarrow> bool" where
  \<comment> \<open>the strings that \<open>^[a-z0-9]+(-[a-z0-9]+)*$\<close> matches\<close>
  "matchesStemPattern s \<longleftrightarrow>
     (\<exists>w r. s = w @ r \<and> w \<noteq> [] \<and> list_all isAlnum w \<and> hyphenWords r)"

text \<open>
  An automaton for the same pattern, which can be run, and the two facts about a string
  that the proofs follow through the chain.
\<close>

fun matchStem :: "bool \<Rightarrow> jsstring \<Rightarrow> bool" where
  \<comment> \<open>the automaton of \<open>^[a-z0-9]+(-[a-z0-9]+)*$\<close>; the flag says that the code unit just
      read was a letter or digit, so that a hyphen or the end may follow\<close>
  "matchStem prev [] = prev"
| "matchStem prev (c # cs) =
     (if isAlnum c then matchStem True cs
      else if c = 45 \<and> prev then matchStem False cs
      else False)"

definition isStem :: "jsstring \<Rightarrow> bool" where
  "isStem s = matchStem False s"

fun noAdjacentHyphens :: "jsstring \<Rightarrow> bool" where
  "noAdjacentHyphens (a # b # cs) = (\<not> (a = 45 \<and> b = 45) \<and> noAdjacentHyphens (b # cs))"
| "noAdjacentHyphens _ = True"

definition isStemChar :: "code_unit \<Rightarrow> bool" where
  "isStemChar c \<longleftrightarrow> isAlnum c \<or> c = 45"

section \<open>Filename allocation (\<open>ScratchpadsManager\<close>, in the unnamed source part)\<close>

text \<open>
  \<open>Utils.getScratchpadFiles()\<close> lists the names in the scratchpad folder; the listing is the
  parameter \<open>files\<close>, the same for the two reads that one allocation makes. The prefix is
  escaped before it enters a pattern, so it matches literally.
\<close>

definition basePatternTest :: "jsstring \<Rightarrow> jsstring \<Rightarrow> bool" where
  \<comment> \<open>\<open>new RegExp(`^${escapedPrefix}\\.(.+)$`).test(file)\<close>\<close>
  "basePatternTest baseFilename file =
     (take (length baseFilename) file = baseFilename \<and>
      (let r = drop (length baseFilename) file
       in r \<noteq> [] \<and> hd r = 46 \<and> tl r \<noteq> [] \<and> list_all (\<lambda>c. \<not> isLineTerminator c) (tl r)))"

fun baseFilenameExists :: "jsstring list \<Rightarrow> jsstring \<Rightarrow> bool" where
  "baseFilenameExists [] baseFilename = False"
| "baseFilenameExists (file # files) baseFilename =
     (if basePatternTest baseFilename file then True else baseFilenameExists files baseFilename)"

definition numberedPatternMatch :: "jsstring \<Rightarrow> jsstring \<Rightarrow> jsstring option" where
  \<comment> \<open>\<open>file.match(new RegExp(`^${escapedPrefix}(\\d+)\\.(.+)$`))\<close>: the first group of a
      match. The digits are followed by a dot, so the group is the longest run of digits.\<close>
  "numberedPatternMatch baseFilename file =
     (if take (length baseFilename) file = baseFilename then
        (let r = drop (length baseFilename) file;
             ds = takeWhile isDigit r;
             rest = dropWhile isDigit r
         in if ds \<noteq> [] \<and> rest \<noteq> [] \<and> hd rest = 46 \<and> tl rest \<noteq> [] \<and>
               list_all (\<lambda>c. \<not> isLineTerminator c) (tl rest)
            then Some ds else None)
      else None)"

definition parseInt :: "jsstring \<Rightarrow> nat" where
  \<comment> \<open>\<open>parseInt(digits, 10)\<close> on a string of decimal digits. A JavaScript number is a
      double and holds every integer below \<open>2 ^ 53\<close> exactly; the value here is exact
      throughout.\<close>
  "parseInt ds = foldl (\<lambda>n c. 10 * n + (c - 48)) 0 ds"

fun numberToString :: "nat \<Rightarrow> jsstring" where
  \<comment> \<open>a number in a template literal: its decimal digits\<close>
  "numberToString n = (if n < 10 then [48 + n] else numberToString (n div 10) @ [48 + n mod 10])"

declare numberToString.simps [simp del]

definition usedNumbers :: "jsstring list \<Rightarrow> jsstring \<Rightarrow> nat list" where
  \<comment> \<open>the \<open>Set<number>\<close> filled by the first loop of \<open>findNextAvailableNumber\<close>\<close>
  "usedNumbers files baseFilename =
     fold (\<lambda>file used.
             case numberedPatternMatch baseFilename file of
               None \<Rightarrow> used
             | Some ds \<Rightarrow> List.insert (parseInt ds) used)
          files []"

function firstGap :: "nat list \<Rightarrow> nat \<Rightarrow> nat" where
  \<comment> \<open>\<open>while (usedNumbers.has(candidate)) candidate++\<close>\<close>
  "firstGap used candidate =
     (if candidate \<in> set used then firstGap used (candidate + 1) else candidate)"
  by pat_completeness auto
termination
  by (relation "measure (\<lambda>(used, candidate). Suc (sum_list used) - candidate)")
     (auto dest: member_le_sum_list)

declare firstGap.simps [simp del]

definition findNextAvailableNumber :: "jsstring list \<Rightarrow> jsstring \<Rightarrow> nat" where
  "findNextAvailableNumber files baseFilename =
     (let used = usedNumbers files baseFilename
      in if length used = 0 then 1 else firstGap used 1)"

definition finalFilename :: "jsstring \<Rightarrow> jsstring \<Rightarrow> jsstring list \<Rightarrow> jsstring" where
  \<comment> \<open>the name \<open>createScratchpad\<close> creates, from the base name, the extension of the chosen
      file type and the listing (the spec's \<open>allocate\<close>)\<close>
  "finalFilename baseFilename ext files =
     (if \<not> baseFilenameExists files baseFilename then baseFilename @ ext
      else baseFilename @ numberToString (findNextAvailableNumber files baseFilename) @ ext)"

subsection \<open>The naming patterns, as the specification words them\<close>

definition isUnsuffixedName :: "jsstring \<Rightarrow> jsstring \<Rightarrow> bool" where
  \<comment> \<open>base name, a dot, any extension (one or more code units, none a line terminator)\<close>
  "isUnsuffixedName baseName file \<longleftrightarrow>
     (\<exists>e. file = baseName @ 46 # e \<and> e \<noteq> [] \<and> (\<forall>c \<in> set e. \<not> isLineTerminator c))"

definition isNumberedName :: "jsstring \<Rightarrow> jsstring \<Rightarrow> jsstring \<Rightarrow> bool" where
  \<comment> \<open>base name, the digits \<open>ds\<close>, a dot, any extension\<close>
  "isNumberedName baseName ds file \<longleftrightarrow>
     ds \<noteq> [] \<and> (\<forall>c \<in> set ds. isDigit c) \<and>
     (\<exists>e. file = baseName @ ds @ 46 # e \<and> e \<noteq> [] \<and> (\<forall>c \<in> set e. \<not> isLineTerminator c))"

definition numericSuffixes :: "jsstring \<Rightarrow> jsstring list \<Rightarrow> nat set" where
  \<comment> \<open>the parsed numeric suffixes of the existing numbered names\<close>
  "numericSuffixes baseName files =
     {parseInt ds | ds file. file \<in> set files \<and> isNumberedName baseName ds file}"

section \<open>Suggestion backends and provider chain (\<open>AIFilenameService\<close>, src/ai-filename.ts)\<close>

text \<open>
  The methods call collaborators (the editor's language-model API, the HTTPS client, the
  configuration store) and can throw. A computation is modelled by its result, \<open>Inl\<close> for a
  thrown exception, together with the list of calls it made, in the order it made them:
  the calls of the two backend methods with their arguments, and the calls of the
  collaborators.

  The promise that \<open>postJSON\<close> builds by hand is settled by two listeners only, so it can
  stay pending for ever. The result of a method that awaits it is \<open>None\<close> then: the method
  never resumes, and neither does a caller that awaits the method. The editor's
  language-model API is taken to answer every call: its promises settle, and the stream of
  a response ends or throws.
\<close>

datatype js_error =
    TypeError
  | SyntaxError
  | RequestFailed "nat option" jsstring
  | RequestTimedOut nat
  | HostError jsstring

datatype json =
    JNull
  | JBool bool
  | JNumber real
  | JString jsstring
  | JArray "json list"
  | JObject "(jsstring \<times> json) list"

type_synonym selector = "(jsstring \<times> jsstring) list"

datatype chat_model =
  ChatModel (sendRequest: "jsstring list \<Rightarrow> js_error + (jsstring list \<times> js_error option)")
  \<comment> \<open>\<open>sendRequest\<close> rejects, or gives a response whose text stream yields its fragments and
      then ends or throws\<close>

text \<open>
  What the HTTPS client does with one request, as far as the callbacks of \<open>postJSON\<close> can
  tell, in the order of events that Node's documentation of \<open>http.request\<close> gives. Before a
  response has begun, a failure makes the request emit \<open>error\<close>, and so does
  \<open>req.destroy(error)\<close>, with that error. Once a response has begun, a connection that
  closes before the end of the response, and \<open>req.destroy(error)\<close>, are reported on the
  response, which emits \<open>aborted\<close>, \<open>error\<close> and \<open>close\<close>: the response emits no \<open>end\<close> and
  the request no \<open>error\<close>.
\<close>

datatype http_outcome =
    Responded "nat option" jsstring
    \<comment> \<open>the response ended: \<open>res.statusCode\<close> and the accumulated data\<close>
  | Errored js_error
    \<comment> \<open>the request emitted \<open>error\<close>\<close>
  | TimedOut
    \<comment> \<open>the callback passed to \<open>req.setTimeout\<close> ran before any response began\<close>
  | Interrupted "nat option" jsstring
    \<comment> \<open>a response began (its status, the data received) and the connection closed before
        the response ended\<close>
  | Stalled "nat option" jsstring
    \<comment> \<open>a response began (its status, the data received) and the callback passed to
        \<open>req.setTimeout\<close> ran before the response ended\<close>

datatype event =
    SuggestWithVSCodeLM jsstring jsstring
  | SuggestWithOpenAI jsstring jsstring
  | SelectChatModels selector
  | SendRequest "jsstring list"
  | HttpsRequest jsstring json "(jsstring \<times> jsstring) list" nat
  | DestroyRequest js_error
  | RenameFile jsstring jsstring
  | CloseAllTabsForFile jsstring
  | OpenFile jsstring

type_synonym 'a computation = "(js_error + 'a) \<times> event list"

type_synonym 'a promise = "(js_error + 'a) option \<times> event list"

text \<open>
  \<open>Config.getExtensionConfiguration(key)\<close> for the keys the code reads; \<open>None\<close> is a key
  without a value. A configured number is taken to be an integer.
\<close>

record configuration =
  renameProvider :: "jsstring option"
  openAIApiKey :: "jsstring option"
  openAIModel :: "jsstring option"
  autoRenameMinChars :: "int option"
  filePrefix :: "jsstring option"
  projectScratchpadsPath :: jsstring

record runtime =
  unicodeLower :: "jsstring \<Rightarrow> jsstring"
  JSON_parse :: "jsstring \<Rightarrow> json option"
  lm :: "(selector \<Rightarrow> js_error + chat_model list) option"
  LanguageModelChatMessage :: bool
  httpsRequest :: "jsstring \<Rightarrow> json \<Rightarrow> (jsstring \<times> jsstring) list \<Rightarrow> nat \<Rightarrow> http_outcome"

definition orElse :: "jsstring option \<Rightarrow> jsstring \<Rightarrow> jsstring" where
  \<comment> \<open>\<open>value || fallback\<close> on a string that may be undefined: the empty string is falsy\<close>
  "orElse v d = (case v of None \<Rightarrow> d | Some s \<Rightarrow> if s = [] then d else s)"

definition tryCatch :: "'a option computation \<Rightarrow> 'a option computation" where
  \<comment> \<open>\<open>try { ... } catch { return undefined; }\<close>\<close>
  "tryCatch c = (case c of (Inl e, t) \<Rightarrow> (Inr None, t) | (Inr v, t) \<Rightarrow> (Inr v, t))"

definition settled :: "'a computation \<Rightarrow> 'a promise" where
  \<comment> \<open>the promise of an asynchronous method that has returned or thrown\<close>
  "settled c = (case c of (r, t) \<Rightarrow> (Some r, t))"

subsection \<open>The local backend\<close>

definition selectors :: "selector list" where
  "selectors =
     [[(js ''vendor'', js ''copilot''), (js ''family'', js ''gpt-5-mini'')],
      [(js ''vendor'', js ''copilot''), (js ''family'', js ''gpt-4o-mini'')],
      [(js ''vendor'', js ''copilot'')]]"

fun selectModel ::
  "(selector \<Rightarrow> js_error + chat_model list) \<Rightarrow> selector list \<Rightarrow> chat_model option computation"
where
  \<comment> \<open>the loop over the selectors: the first element of the first non-empty answer\<close>
  "selectModel select [] = (Inr None, [])"
| "selectModel select (s # ss) =
     (case select s of
        Inl e \<Rightarrow> (Inl e, [SelectChatModels s])
      | Inr (candidate # _) \<Rightarrow> (Inr (Some candidate), [SelectChatModels s])
      | Inr [] \<Rightarrow> (case selectModel select ss of (r, t) \<Rightarrow> (r, SelectChatModels s # t)))"

definition lmPrompt :: "jsstring \<Rightarrow> jsstring \<Rightarrow> jsstring list" where
  "lmPrompt content fileExt =
     [js ''Generate a short, descriptive filename based on content. '' @
      js ''Respond with filename text only, no extension, no markdown, no quotes, '' @
      js ''lowercase with dashes only. Target extension: '' @
      orElse (Some fileExt) (js ''none'') @ js ''.'',
      content]"

definition suggestWithVSCodeLM :: "runtime \<Rightarrow> jsstring \<Rightarrow> jsstring \<Rightarrow> jsstring option computation"
    where
  "suggestWithVSCodeLM rt content fileExt =
     tryCatch
       (case lm rt of
          None \<Rightarrow> (Inr None, [])
        | Some select \<Rightarrow>
            if \<not> LanguageModelChatMessage rt then (Inr None, [])
            else
              (case selectModel select selectors of
                 (Inl e, t) \<Rightarrow> (Inl e, t)
               | (Inr None, t) \<Rightarrow> (Inr None, t)
               | (Inr (Some model), t) \<Rightarrow>
                   (let prompt = lmPrompt content fileExt;
                        t' = t @ [SendRequest prompt]
                    in case sendRequest model prompt of
                         Inl e \<Rightarrow> (Inl e, t')
                       | Inr (fragments, Some e) \<Rightarrow> (Inl e, t')
                       | Inr (fragments, None) \<Rightarrow>
                           (Inr (sanitizeFilename (unicodeLower rt) (concat fragments)), t'))))"

subsection \<open>The remote backend\<close>

definition timeoutMs :: nat where
  "timeoutMs = 10000"

definition postJSON ::
  "runtime \<Rightarrow> jsstring \<Rightarrow> json \<Rightarrow> (jsstring \<times> jsstring) list \<Rightarrow> jsstring promise"
where
  \<comment> \<open>The promise is settled by the listener for \<open>end\<close> on the response, which resolves with
      the data of a 2xx response and rejects on any other status, and by the listener for
      \<open>error\<close> on the request, which rejects. The timeout callback destroys the request with
      an error. Nothing listens to \<open>aborted\<close>, \<open>error\<close> or \<open>close\<close> on the response.\<close>
  "postJSON rt urlString payload headers =
     (let t = [HttpsRequest urlString payload headers timeoutMs];
          destroyed = t @ [DestroyRequest (RequestTimedOut timeoutMs)]
      in case httpsRequest rt urlString payload headers timeoutMs of
           Responded statusCode data \<Rightarrow>
             (case statusCode of
                None \<Rightarrow> (Some (Inl (RequestFailed statusCode data)), t)
              | Some code \<Rightarrow>
                  if code \<noteq> 0 \<and> 200 \<le> code \<and> code < 300 then (Some (Inr data), t)
                  else (Some (Inl (RequestFailed statusCode data)), t))
         | Errored e \<Rightarrow> (Some (Inl e), t)
         | TimedOut \<Rightarrow> (Some (Inl (RequestTimedOut timeoutMs)), destroyed)
         | Interrupted statusCode data \<Rightarrow> (None, t)
         | Stalled statusCode data \<Rightarrow> (None, destroyed))"

definition getMember :: "json \<Rightarrow> jsstring \<Rightarrow> json option" where
  \<comment> \<open>\<open>value.name\<close> on a parsed value that is not null, for a name that is neither an index
      nor \<open>length\<close>: only an object can have it\<close>
  "getMember v name = (case v of JObject members \<Rightarrow> map_of members name | _ \<Rightarrow> None)"

definition getFirst :: "json \<Rightarrow> json option" where
  \<comment> \<open>\<open>value[0]\<close> on a parsed value that is not null\<close>
  "getFirst v =
     (case v of
        JArray (x # _) \<Rightarrow> Some x
      | JObject members \<Rightarrow> map_of members (js ''0'')
      | JString (c # _) \<Rightarrow> Some (JString [c])
      | _ \<Rightarrow> None)"

definition optChain :: "json option \<Rightarrow> (json \<Rightarrow> json option) \<Rightarrow> json option" where
  \<comment> \<open>\<open>?.\<close>: undefined when the value is undefined or null\<close>
  "optChain v get = (case v of None \<Rightarrow> None | Some JNull \<Rightarrow> None | Some x \<Rightarrow> get x)"

definition truthy :: "json option \<Rightarrow> bool" where
  "truthy v =
     (case v of
        None \<Rightarrow> False
      | Some JNull \<Rightarrow> False
      | Some (JBool b) \<Rightarrow> b
      | Some (JNumber n) \<Rightarrow> n \<noteq> 0
      | Some (JString s) \<Rightarrow> s \<noteq> []
      | Some _ \<Rightarrow> True)"

definition responseText :: "json \<Rightarrow> js_error + json option" where
  \<comment> \<open>\<open>response.choices?.[0]?.message?.content\<close>; reading a property of null throws\<close>
  "responseText response =
     (case response of
        JNull \<Rightarrow> Inl TypeError
      | _ \<Rightarrow>
          Inr (optChain (optChain (optChain (getMember response (js ''choices'')) getFirst)
                  (\<lambda>v. getMember v (js ''message'')))
                 (\<lambda>v. getMember v (js ''content''))))"

definition openAIPayload :: "jsstring \<Rightarrow> jsstring \<Rightarrow> jsstring \<Rightarrow> json" where
  "openAIPayload model content fileExt =
     JObject
       [(js ''model'', JString model),
        (js ''messages'',
         JArray
           [JObject
              [(js ''role'', JString (js ''system'')),
               (js ''content'',
                JString
                  (js ''Return a concise lowercase filename with dashes only. '' @
                   js ''Do not include extension, punctuation, code fences, quotes, '' @
                   js ''or extra text.''))],
            JObject
              [(js ''role'', JString (js ''user'')),
               (js ''content'',
                JString (js ''Suggest a filename for this '' @ orElse (Some fileExt) (js ''text'')
                         @ js '' scratchpad:'' @ [10, 10] @ content))]]),
        (js ''temperature'', JNumber 0.2),
        (js ''max_tokens'', JNumber 24)]"

definition suggestWithOpenAI ::
  "runtime \<Rightarrow> configuration \<Rightarrow> jsstring \<Rightarrow> jsstring \<Rightarrow> jsstring option promise"
where
  "suggestWithOpenAI rt cfg content fileExt =
     (let apiKey = orElse (openAIApiKey cfg) []
      in if apiKey = [] then (Some (Inr None), [])
         else
           (let model = orElse (openAIModel cfg) (js ''gpt-5-mini'');
                payload = openAIPayload model content fileExt
            in case postJSON rt (js ''https://api.openai.com/v1/chat/completions'') payload
                      [(js ''Authorization'', js ''Bearer '' @ apiKey)] of
                 (None, t) \<Rightarrow> (None, t)
               | (Some awaited, t) \<Rightarrow>
                   settled
                     (tryCatch
                        (case awaited of
                           Inl e \<Rightarrow> (Inl e, t)
                         | Inr rawResponse \<Rightarrow>
                             (case JSON_parse rt rawResponse of
                                None \<Rightarrow> (Inl SyntaxError, t)
                              | Some response \<Rightarrow>
                                  (case responseText response of
                                     Inl e \<Rightarrow> (Inl e, t)
                                   | Inr text \<Rightarrow>
                                       if \<not> truthy text then (Inr None, t)
                                       else
                                         (case text of
                                            Some (JString s) \<Rightarrow>
                                              (Inr (sanitizeFilename (unicodeLower rt) s), t)
                                          | _ \<Rightarrow> (Inl TypeError, t))))))))"

definition openAIRequestOutcome ::
  "runtime \<Rightarrow> configuration \<Rightarrow> jsstring \<Rightarrow> jsstring \<Rightarrow> http_outcome"
where
  \<comment> \<open>the fate of the one request that \<open>suggestWithOpenAI\<close> sends when it has an API key\<close>
  "openAIRequestOutcome rt cfg content fileExt =
     httpsRequest rt (js ''https://api.openai.com/v1/chat/completions'')
       (openAIPayload (orElse (openAIModel cfg) (js ''gpt-5-mini'')) content fileExt)
       [(js ''Authorization'', js ''Bearer '' @ orElse (openAIApiKey cfg) [])] timeoutMs"

subsection \<open>The provider chain\<close>

definition suggestFilename ::
  "runtime \<Rightarrow> configuration \<Rightarrow> jsstring \<Rightarrow> jsstring \<Rightarrow> jsstring option promise"
where
  "suggestFilename rt cfg content fileExt =
     (let provider = orElse (renameProvider cfg) (js ''auto'');
          remote = (\<lambda>t.
            if provider = js ''openai'' \<or> provider = js ''auto'' then
              (case suggestWithOpenAI rt cfg content fileExt of
                 (r, t2) \<Rightarrow> (r, t @ SuggestWithOpenAI content fileExt # t2))
            else (Some (Inr None), t))
      in if provider = js ''vscode'' \<or> provider = js ''auto'' then
           (case suggestWithVSCodeLM rt content fileExt of
              (Inl e, t1) \<Rightarrow> (Some (Inl e), SuggestWithVSCodeLM content fileExt # t1)
            | (Inr vscodeSuggestion, t1) \<Rightarrow>
                if vscodeSuggestion \<noteq> None \<and> vscodeSuggestion \<noteq> Some []
                then (Some (Inr vscodeSuggestion), SuggestWithVSCodeLM content fileExt # t1)
                else remote (SuggestWithVSCodeLM content fileExt # t1))
         else remote [])"

subsection \<open>When a backend has a stem to return\<close>

definition localSucceeds :: "runtime \<Rightarrow> jsstring \<Rightarrow> jsstring \<Rightarrow> jsstring \<Rightarrow> bool" where
  \<comment> \<open>the language-model API is there, a selector resolves to a model before any selection
      throws, the model accepts the request, its stream ends without throwing, and the
      accumulated text sanitizes to the stem\<close>
  "localSucceeds rt content fileExt stem \<longleftrightarrow>
     (\<exists>select model fragments.
        lm rt = Some select \<and> LanguageModelChatMessage rt \<and>
        fst (selectModel select selectors) = Inr (Some model) \<and>
        sendRequest model (lmPrompt content fileExt) = Inr (fragments, None) \<and>
        sanitizeFilename (unicodeLower rt) (concat fragments) = Some stem)"

definition remoteSucceeds ::
  "runtime \<Rightarrow> configuration \<Rightarrow> jsstring \<Rightarrow> jsstring \<Rightarrow> jsstring \<Rightarrow> bool"
where
  \<comment> \<open>an API key is configured, the request ends with a 2xx status, the body parses, its
      \<open>choices[0].message.content\<close> is a non-empty string, and that string sanitizes to the
      stem\<close>
  "remoteSucceeds rt cfg content fileExt stem \<longleftrightarrow>
     orElse (openAIApiKey cfg) [] \<noteq> [] \<and>
     (\<exists>code data response text.
        openAIRequestOutcome rt cfg content fileExt = Responded (Some code) data \<and>
        200 \<le> code \<and> code < 300 \<and>
        JSON_parse rt data = Some response \<and>
        responseText response = Inr (Some (JString text)) \<and> text \<noteq> [] \<and>
        sanitizeFilename (unicodeLower rt) text = Some stem)"

fun requestSettles :: "http_outcome \<Rightarrow> bool" where
  \<comment> \<open>the request reaches one of the two listeners that settle the promise of \<open>postJSON\<close>\<close>
  "requestSettles (Interrupted statusCode data) = False"
| "requestSettles (Stalled statusCode data) = False"
| "requestSettles outcome = True"

subsection \<open>Which backend a call belongs to\<close>

fun isLocalEvent :: "event \<Rightarrow> bool" where
  "isLocalEvent (SuggestWithVSCodeLM content fileExt) = True"
| "isLocalEvent (SelectChatModels s) = True"
| "isLocalEvent (SendRequest prompt) = True"
| "isLocalEvent e = False"

fun isRemoteEvent :: "event \<Rightarrow> bool" where
  "isRemoteEvent (SuggestWithOpenAI content fileExt) = True"
| "isRemoteEvent (HttpsRequest url payload headers ms) = True"
| "isRemoteEvent (DestroyRequest e) = True"
| "isRemoteEvent e = False"

fun isProviderEvent :: "event \<Rightarrow> bool" where
  "isProviderEvent e = (isLocalEvent e \<or> isRemoteEvent e)"

fun isRenameEvent :: "event \<Rightarrow> bool" where
  "isRenameEvent (RenameFile a b) = True"
| "isRenameEvent e = False"

section \<open>Automatic renaming (\<open>autoRenameScratchpadFromDocument\<close>, in the unnamed source part)\<close>

text \<open>
  The manager's collaborators. The first seven fields are the functions of Node's \<open>path\<close>
  module for the platform (\<open>basenameWithout\<close> is \<open>path.basename\<close> with its second argument);
  \<open>win32\<close> is \<open>process.platform === 'win32'\<close>; \<open>existsSync\<close> is \<open>fs.existsSync\<close>; the
  rest are the \<open>Utils\<close> functions. \<open>findOpenEditor\<close> throws, or finds no editor, or finds
  one whose document is dirty or not; the last three give the error they throw, if any.
\<close>

record host =
  dirname :: "jsstring \<Rightarrow> jsstring"
  basename :: "jsstring \<Rightarrow> jsstring"
  basenameWithout :: "jsstring \<Rightarrow> jsstring \<Rightarrow> jsstring"
  extname :: "jsstring \<Rightarrow> jsstring"
  resolve :: "jsstring \<Rightarrow> jsstring"
  relative :: "jsstring \<Rightarrow> jsstring \<Rightarrow> jsstring"
  isAbsolute :: "jsstring \<Rightarrow> bool"
  win32 :: bool
  existsSync :: "jsstring \<Rightarrow> bool"
  getScratchpadFilePath :: "jsstring \<Rightarrow> jsstring"
  findOpenEditor :: "jsstring \<Rightarrow> js_error + bool option"
  renameFile :: "jsstring \<Rightarrow> jsstring \<Rightarrow> js_error option"
  closeAllTabsForFile :: "jsstring \<Rightarrow> js_error option"
  openFile :: "jsstring \<Rightarrow> js_error option"

text \<open>
  A document is its file name and its text. An attempt ends at one of the \<open>return\<close>
  statements of the method, or after the rename; \<open>outcome\<close> names them in their order.
  The last outcome is that of an attempt that does not end: the promise of the provider
  chain, which the method awaits, never settles.
\<close>

record document =
  fileName :: jsstring
  getText :: jsstring

datatype outcome =
    NotAScratchpad
  | BelowMinChars
  | NotAutoNamed
  | SuggestionThrew
  | EmptyOrUnchanged
  | SamePath
  | DestinationExists
  | EditorDirty
  | CommitThrew
  | Renamed
  | NeverResumed

definition buildFinalFilename :: "host \<Rightarrow> jsstring \<Rightarrow> jsstring \<Rightarrow> jsstring" where
  \<comment> \<open>\<open>AIFilenameService.buildFinalFilename\<close>\<close>
  "buildFinalFilename h baseName currentFilePath =
     (let ext = extname h currentFilePath in baseName @ ext)"

definition normalizePath :: "runtime \<Rightarrow> host \<Rightarrow> jsstring \<Rightarrow> jsstring" where
  "normalizePath rt h inputPath =
     (let resolved = resolve h inputPath;
          withoutTrailing = rev (dropWhile (\<lambda>c. c = 92 \<or> c = 47) (rev resolved))
      in if win32 h then toLowerCase (unicodeLower rt) withoutTrailing else withoutTrailing)"

definition isPathInsideRoot :: "host \<Rightarrow> jsstring \<Rightarrow> jsstring \<Rightarrow> bool" where
  "isPathInsideRoot h candidatePath rootPath =
     (if candidatePath = [] \<or> rootPath = [] then False
      else if candidatePath = rootPath then True
      else (let relativePath = relative h rootPath candidatePath
            in relativePath \<noteq> [] \<and> take 2 relativePath \<noteq> js ''..'' \<and>
               \<not> isAbsolute h relativePath))"

definition isScratchpadDocument :: "runtime \<Rightarrow> host \<Rightarrow> configuration \<Rightarrow> document \<Rightarrow> bool" where
  "isScratchpadDocument rt h cfg doc =
     (let editorPath = dirname h (fileName doc);
          normalizedEditorPath = normalizePath rt h editorPath;
          normalizedProjectPath = normalizePath rt h (projectScratchpadsPath cfg);
          matchesProjectFolder = (normalizedEditorPath = normalizedProjectPath);
          isUnderProjectScratchpads = isPathInsideRoot h normalizedEditorPath normalizedProjectPath
      in matchesProjectFolder \<or> isUnderProjectScratchpads)"

definition minChars :: "configuration \<Rightarrow> int" where
  \<comment> \<open>\<open>(Config.getExtensionConfiguration(CONFIG_AUTO_RENAME_MIN_CHARS) as number) || 20\<close>\<close>
  "minChars cfg = (case autoRenameMinChars cfg of None \<Rightarrow> 20 | Some n \<Rightarrow> if n = 0 then 20 else n)"

definition scratchNamePatternTest :: "jsstring \<Rightarrow> jsstring \<Rightarrow> bool" where
  \<comment> \<open>\<open>new RegExp(`^${escapedPrefix}\\d*$`).test(name)\<close>\<close>
  "scratchNamePatternTest configuredPrefix name =
     (take (length configuredPrefix) name = configuredPrefix \<and>
      list_all isDigit (drop (length configuredPrefix) name))"

definition currentBaseName :: "host \<Rightarrow> document \<Rightarrow> jsstring" where
  "currentBaseName h doc =
     (let currentFileName = basename h (fileName doc)
      in basenameWithout h currentFileName (extname h currentFileName))"

definition commitRename :: "host \<Rightarrow> jsstring \<Rightarrow> jsstring \<Rightarrow> outcome \<times> event list" where
  \<comment> \<open>the final \<open>try\<close> block: the dirty-editor guard, the rename, the tab refresh\<close>
  "commitRename h currentFilePath newFilePath =
     (case findOpenEditor h currentFilePath of
        Inl e \<Rightarrow> (CommitThrew, [])
      | Inr openEditor \<Rightarrow>
          if openEditor = Some True then (EditorDirty, [])
          else
            (case renameFile h currentFilePath newFilePath of
               Some e \<Rightarrow> (CommitThrew, [RenameFile currentFilePath newFilePath])
             | None \<Rightarrow>
                 if openEditor = None then (Renamed, [RenameFile currentFilePath newFilePath])
                 else
                   (case closeAllTabsForFile h currentFilePath of
                      Some e \<Rightarrow>
                        (CommitThrew,
                         [RenameFile currentFilePath newFilePath,
                          CloseAllTabsForFile currentFilePath])
                    | None \<Rightarrow>
                        (case openFile h newFilePath of
                           Some e \<Rightarrow>
                             (CommitThrew,
                              [RenameFile currentFilePath newFilePath,
                               CloseAllTabsForFile currentFilePath, OpenFile newFilePath])
                         | None \<Rightarrow>
                             (Renamed,
                              [RenameFile currentFilePath newFilePath,
                               CloseAllTabsForFile currentFilePath, OpenFile newFilePath])))))"

definition afterSuggestion ::
  "runtime \<Rightarrow> host \<Rightarrow> document \<Rightarrow> jsstring option \<Rightarrow> outcome \<times> event list"
where
  \<comment> \<open>\<open>autoRenameScratchpadFromDocument\<close> from the check of the suggestion on\<close>
  "afterSuggestion rt h doc suggestion =
     (case suggestion of
        None \<Rightarrow> (EmptyOrUnchanged, [])
      | Some s \<Rightarrow>
          if s = [] \<or> s = currentBaseName h doc then (EmptyOrUnchanged, [])
          else
            (let currentFilePath = fileName doc;
                 finalFileName = buildFinalFilename h s currentFilePath;
                 newFilePath = getScratchpadFilePath h finalFileName;
                 normalizedCurrentFilePath = normalizePath rt h currentFilePath;
                 normalizedNewFilePath = normalizePath rt h newFilePath
             in if normalizedNewFilePath = normalizedCurrentFilePath then (SamePath, [])
                else if existsSync h newFilePath then (DestinationExists, [])
                else commitRename h currentFilePath newFilePath))"

definition autoRenameScratchpadFromDocument ::
  "runtime \<Rightarrow> host \<Rightarrow> configuration \<Rightarrow> document \<Rightarrow> outcome \<times> event list"
where
  "autoRenameScratchpadFromDocument rt h cfg doc =
     (if \<not> isScratchpadDocument rt h cfg doc then (NotAScratchpad, [])
      else
        (let content = trim (getText doc)
         in if int (length content) < minChars cfg then (BelowMinChars, [])
            else
              (let currentFileName = basename h (fileName doc);
                   configuredPrefix = orElse (filePrefix cfg) (js ''scratch'')
               in if \<not> scratchNamePatternTest configuredPrefix (currentBaseName h doc)
                  then (NotAutoNamed, [])
                  else
                    (case suggestFilename rt cfg (take 6000 content) (extname h currentFileName) of
                       (None, t) \<Rightarrow> (NeverResumed, t)
                     | (Some (Inl e), t) \<Rightarrow> (SuggestionThrew, t)
                     | (Some (Inr suggestion), t) \<Rightarrow>
                         (case afterSuggestion rt h doc suggestion of
                            (out, t') \<Rightarrow> (out, t @ t'))))))"

subsection \<open>A stand-in for the collaborators, for the examples\<close>

text \<open>
  The examples run on absolute, normalised POSIX paths, where the \<open>path\<close> functions are plain
  string functions: the directory and the last component are split at the last slash, and
  the extension starts at the last dot of the last component unless that dot comes first.
\<close>

definition posixBasename :: "jsstring \<Rightarrow> jsstring" where
  "posixBasename p = rev (takeWhile (\<lambda>c. c \<noteq> 47) (rev p))"

definition posixDirname :: "jsstring \<Rightarrow> jsstring" where
  "posixDirname p = rev (tl (dropWhile (\<lambda>c. c \<noteq> 47) (rev p)))"

definition posixExtname :: "jsstring \<Rightarrow> jsstring" where
  "posixExtname p =
     (let r = rev (posixBasename p);
          rest = dropWhile (\<lambda>c. c \<noteq> 46) r
      in if rest = [] \<or> tl rest = [] then [] else 46 # rev (takeWhile (\<lambda>c. c \<noteq> 46) r))"

definition posixBasenameWithout :: "jsstring \<Rightarrow> jsstring \<Rightarrow> jsstring" where
  "posixBasenameWithout p ext =
     (let b = posixBasename p
      in if ext \<noteq> [] \<and> length ext < length b \<and> drop (length b - length ext) b = ext
         then take (length b - length ext) b else b)"

definition posixRelative :: "jsstring \<Rightarrow> jsstring \<Rightarrow> jsstring" where
  "posixRelative from p =
     (if p = from then []
      else if take (length from + 1) p = from @ [47] then drop (length from + 1) p
      else js ''../'' @ posixBasename p)"

definition exampleHost :: "jsstring list \<Rightarrow> host" where
  \<comment> \<open>a scratchpad folder \<open>/work/scratchpads\<close> holding the given paths, no editor open\<close>
  "exampleHost existing =
     \<lparr> dirname = posixDirname, basename = posixBasename, basenameWithout = posixBasenameWithout,
       extname = posixExtname, resolve = (\<lambda>p. p), relative = posixRelative,
       isAbsolute = (\<lambda>p. p \<noteq> [] \<and> hd p = 47), win32 = False,
       existsSync = (\<lambda>p. p \<in> set existing),
       getScratchpadFilePath = (\<lambda>name. js ''/work/scratchpads/'' @ name),
       findOpenEditor = (\<lambda>p. Inr None), renameFile = (\<lambda>a b. None),
       closeAllTabsForFile = (\<lambda>p. None), openFile = (\<lambda>p. None) \<rparr>"

definition exampleConfig :: "jsstring option \<Rightarrow> jsstring option \<Rightarrow> configuration" where
  \<comment> \<open>the provider and the API key as given, everything else left at its default\<close>
  "exampleConfig provider apiKey =
     \<lparr> renameProvider = provider, openAIApiKey = apiKey, openAIModel = None,
       autoRenameMinChars = None, filePrefix = None,
       projectScratchpadsPath = js ''/work/scratchpads'' \<rparr>"

definition exampleRuntime ::
  "(selector \<Rightarrow> js_error + chat_model list) option \<Rightarrow> http_outcome \<Rightarrow> (jsstring \<Rightarrow> json option)
     \<Rightarrow> runtime"
where
  \<comment> \<open>a language-model API (if any), the fate of every HTTPS request, a parser\<close>
  "exampleRuntime select outcome parse =
     \<lparr> unicodeLower = asciiLower, JSON_parse = parse, lm = select,
       LanguageModelChatMessage = True, httpsRequest = (\<lambda>url payload headers ms. outcome) \<rparr>"

definition exampleSelect :: "jsstring list \<Rightarrow> selector \<Rightarrow> js_error + chat_model list" where
  \<comment> \<open>a language-model API that knows no model of a named family and one model of the vendor,
      which answers every request with the given fragments\<close>
  "exampleSelect fragments s =
     (if map_of s (js ''family'') = None
      then Inr [ChatModel (\<lambda>prompt. Inr (fragments, None))]
      else Inr [])"

definition exampleResponse :: "json \<Rightarrow> json" where
  \<comment> \<open>a chat-completion body whose first choice has the given message content\<close>
  "exampleResponse content =
     JObject [(js ''choices'',
               JArray [JObject [(js ''message'', JObject [(js ''content'', content)])]])]"

subsection \<open>The gates, as the specification words them\<close>

definition isAutoManagedName :: "jsstring \<Rightarrow> jsstring \<Rightarrow> bool" where
  \<comment> \<open>the configured prefix, optionally followed by digits\<close>
  "isAutoManagedName configuredPrefix name \<longleftrightarrow>
     (\<exists>ds. name = configuredPrefix @ ds \<and> (\<forall>c \<in> set ds. isDigit c))"

definition configuredMinimum :: "configuration \<Rightarrow> int" where
  \<comment> \<open>the configured minimum character count, 20 by default\<close>
  "configuredMinimum cfg = (case autoRenameMinChars cfg of None \<Rightarrow> 20 | Some n \<Rightarrow> n)"

definition requestedSuggestion ::
  "runtime \<Rightarrow> host \<Rightarrow> configuration \<Rightarrow> document \<Rightarrow> jsstring option promise"
where
  \<comment> \<open>the call of the provider chain that an attempt makes once the gates are passed\<close>
  "requestedSuggestion rt h cfg doc =
     suggestFilename rt cfg (take 6000 (trim (getText doc)))
       (extname h (basename h (fileName doc)))"

definition destinationPath :: "host \<Rightarrow> document \<Rightarrow> jsstring \<Rightarrow> jsstring" where
  \<comment> \<open>where a suggested stem would move the document's file\<close>
  "destinationPath h doc stem =
     getScratchpadFilePath h (buildFinalFilename h stem (fileName doc))"

definition exampleText :: jsstring where
  \<comment> \<open>\<open>function reverseString(s) { return s.split('').reverse().join(''); }\<close>\<close>
  "exampleText =
     js ''function reverseString(s) { return s.split('' @ [39, 39] @ js '').reverse().join('' @
     [39, 39] @ js ''); }''"

definition exampleDocument :: "jsstring \<Rightarrow> jsstring \<Rightarrow> document" where
  "exampleDocument path text = \<lparr> fileName = path, getText = text \<rparr>"

definition exampleLMRuntime :: "jsstring list \<Rightarrow> runtime" where
  \<comment> \<open>the language model answers with the fragments; the network times out\<close>
  "exampleLMRuntime fragments = exampleRuntime (Some (exampleSelect fragments)) TimedOut (\<lambda>s. None)"

definition exampleBareRuntime :: runtime where
  \<comment> \<open>no language-model API; the network times out\<close>
  "exampleBareRuntime = exampleRuntime None TimedOut (\<lambda>s. None)"

definition exampleRemoteRuntime :: "jsstring \<Rightarrow> runtime" where
  \<comment> \<open>no language-model API; the remote API answers 200 with the given message content\<close>
  "exampleRemoteRuntime text =
     exampleRuntime None (Responded (Some 200) (js ''{}'')) (\<lambda>s. Some (exampleResponse (JString
         text)))"

definition exampleCaseBlindHost :: host where
  \<comment> \<open>the stand-in host on a platform that compares paths without regard to case\<close>
  "exampleCaseBlindHost = (exampleHost [])\<lparr> win32 := True \<rparr>"

definition exampleCapitalConfig :: configuration where
  \<comment> \<open>the file prefix \<open>Scratch\<close>, everything else left at its default\<close>
  "exampleCapitalConfig = (exampleConfig None None)\<lparr> filePrefix := Some (js ''Scratch'') \<rparr>"

abbreviation scratch3js :: document where
  "scratch3js \<equiv> exampleDocument (js ''/work/scratchpads/scratch3.js'') exampleText"

abbreviation scratch3plain :: document where
  "scratch3plain \<equiv> exampleDocument (js ''/work/scratchpads/scratch3'') exampleText"

abbreviation helperRuntime :: runtime where
  "helperRuntime \<equiv> exampleLMRuntime [js ''Reverse-'', js ''String Helper'']"

abbreviation defaultConfig :: configuration where
  "defaultConfig \<equiv> exampleConfig None None"

section \<open>Lemmas about the sanitizer\<close>

lemma set_replaceRuns: "set (replaceRuns cls r s) \<subseteq> insert r {c \<in> set s. \<not> cls c}"
proof (induction cls r s rule: replaceRuns.induct)
  case (1 cls r)
  then show ?case by simp
next
  case (2 cls r c cs)
  show ?case
  proof (cases "cls c")
    case True
    with 2 have "set (replaceRuns cls r (dropWhile cls cs)) \<subseteq> insert r {c \<in> set (dropWhile cls cs).
        \<not> cls c}" by simp
    moreover have "set (dropWhile cls cs) \<subseteq> set cs" by (auto dest: set_dropWhileD)
    ultimately show ?thesis using True by auto
  next
    case False
    with 2 show ?thesis by auto
  qed
qed

lemma noAdj_Cons: "a \<noteq> 45 \<Longrightarrow> noAdjacentHyphens s \<Longrightarrow> noAdjacentHyphens (a # s)"
  by (cases s) auto

lemma noAdj_Cons2: "noAdjacentHyphens s \<Longrightarrow> s = [] \<or> hd s \<noteq> 45 \<Longrightarrow> noAdjacentHyphens (a # s)"
  by (cases s) auto

lemma hd_replaceRuns: "s \<noteq> [] \<Longrightarrow> \<not> cls (hd s) \<Longrightarrow> hd (replaceRuns cls r s) = hd s"
  by (cases s) auto

lemma replaceRuns_Nil: "replaceRuns cls r s = [] \<longleftrightarrow> s = []"
  by (cases s) auto

lemma noAdj_replaceRuns: "noAdjacentHyphens (replaceRuns (\<lambda>c. c = 45) 45 s)"
proof (induction "\<lambda>c::nat. c = 45" "45::nat" s rule: replaceRuns.induct)
  case 1
  then show ?case by simp
next
  case (2 c cs)
  show ?case
  proof (cases "c = 45")
    case True
    let ?d = "dropWhile (\<lambda>c. c = 45) cs"
    have ih: "noAdjacentHyphens (replaceRuns (\<lambda>c. c = 45) 45 ?d)" using 2 True by simp
    have "replaceRuns (\<lambda>c. c = 45) 45 ?d = [] \<or> hd (replaceRuns (\<lambda>c. c = 45) 45 ?d) \<noteq> 45"
    proof (cases ?d)
      case Nil
      then show ?thesis by (simp del: dropWhile_eq_Nil_conv)
    next
      case (Cons x xs)
      then have "x \<noteq> 45" using hd_dropWhile[of "\<lambda>c. c = 45" cs] by auto
      with Cons show ?thesis by (simp del: dropWhile_eq_Nil_conv)
    qed
    with ih show ?thesis using True by (simp add: noAdj_Cons2)
  next
    case False
    with 2 show ?thesis by (simp add: noAdj_Cons)
  qed
qed

lemma set_stripEdge: "set (stripEdgeHyphens s) \<subseteq> set s"
  by (auto simp: stripEdgeHyphens_def Let_def dest: in_set_butlastD list.set_sel(2))

lemma noAdj_tl: "noAdjacentHyphens s \<Longrightarrow> noAdjacentHyphens (tl s)"
  by (cases s rule: noAdjacentHyphens.cases) auto

lemma noAdj_take: "noAdjacentHyphens s \<Longrightarrow> noAdjacentHyphens (take n s)"
proof (induction s arbitrary: n rule: noAdjacentHyphens.induct)
  case (1 a b cs)
  show ?case
  proof (cases n)
    case 0
    then show ?thesis by simp
  next
    case (Suc m)
    have "noAdjacentHyphens (take m (b # cs))" using 1 by simp
    then show ?thesis using 1 Suc by (cases m) auto
  qed
qed (auto simp: take_Cons split: nat.splits)

lemma noAdj_butlast: "noAdjacentHyphens s \<Longrightarrow> noAdjacentHyphens (butlast s)"
  by (simp add: butlast_conv_take noAdj_take)

lemma noAdj_stripEdge: "noAdjacentHyphens s \<Longrightarrow> noAdjacentHyphens (stripEdgeHyphens s)"
  by (simp add: stripEdgeHyphens_def Let_def noAdj_tl noAdj_butlast)

lemma noAdj_hd_tl: "noAdjacentHyphens s \<Longrightarrow> s \<noteq> [] \<Longrightarrow> hd s = 45 \<Longrightarrow> tl s \<noteq> [] \<Longrightarrow> hd (tl s) \<noteq> 45"
  by (cases s rule: noAdjacentHyphens.cases) auto

lemma noAdj_last_butlast:
  "noAdjacentHyphens s \<Longrightarrow> s \<noteq> [] \<Longrightarrow> last s = 45 \<Longrightarrow> butlast s \<noteq> [] \<Longrightarrow> last (butlast s) \<noteq> 45"
proof (induction s rule: noAdjacentHyphens.induct)
  case (1 a b cs)
  then show ?case by (cases cs) auto
qed auto

lemma hd_butlast: "butlast s \<noteq> [] \<Longrightarrow> hd (butlast s) = hd s"
  by (cases s) auto

lemma stripEdge_ends:
  assumes "noAdjacentHyphens s" and "stripEdgeHyphens s \<noteq> []"
  shows "hd (stripEdgeHyphens s) \<noteq> 45 \<and> last (stripEdgeHyphens s) \<noteq> 45"
proof -
  define s1 where "s1 = (if s \<noteq> [] \<and> hd s = 45 then tl s else s)"
  have r: "stripEdgeHyphens s = (if s1 \<noteq> [] \<and> last s1 = 45 then butlast s1 else s1)"
    by (simp add: stripEdgeHyphens_def s1_def Let_def)
  have n1: "noAdjacentHyphens s1" using assms(1) by (simp add: s1_def noAdj_tl)
  have h1: "s1 \<noteq> [] \<Longrightarrow> hd s1 \<noteq> 45" using assms(1) by (auto simp: s1_def noAdj_hd_tl)
  show ?thesis
  proof (cases "s1 \<noteq> [] \<and> last s1 = 45")
    case True
    then have e: "stripEdgeHyphens s = butlast s1" using r by simp
    then have ne: "butlast s1 \<noteq> []" using assms(2) by simp
    have "hd (butlast s1) \<noteq> 45" using ne h1 True by (simp add: hd_butlast)
    moreover have "last (butlast s1) \<noteq> 45" using noAdj_last_butlast[OF n1] True ne by simp
    ultimately show ?thesis using e by simp
  next
    case False
    then have e: "stripEdgeHyphens s = s1" using r by auto
    then show ?thesis using False h1 assms(2) by auto
  qed
qed

lemma not_alnum_hyphen: "\<not> isAlnum 45"
  by (simp add: isAlnum_def isLower_def isDigit_def)

lemma noAdj_Cons_iff:
  "noAdjacentHyphens (c # cs) \<longleftrightarrow> (c = 45 \<longrightarrow> cs = [] \<or> hd cs \<noteq> 45) \<and> noAdjacentHyphens cs"
  by (cases cs) auto

lemma matchStem_iff:
  "matchStem prev s \<longleftrightarrow>
     list_all isStemChar s \<and> noAdjacentHyphens s \<and>
     (if s = [] then prev else (hd s = 45 \<longrightarrow> prev) \<and> last s \<noteq> 45)"
proof (induction s arbitrary: prev)
  case Nil
  then show ?case by simp
next
  case (Cons c cs)
  show ?case
  proof (cases "isAlnum c")
    case True
    then have "c \<noteq> 45" using not_alnum_hyphen by auto
    then show ?thesis using True Cons[of True]
      by (auto simp: isStemChar_def noAdj_Cons_iff)
  next
    case False
    show ?thesis
    proof (cases "c = 45 \<and> prev")
      case True
      then show ?thesis using False Cons[of False]
        by (auto simp: isStemChar_def noAdj_Cons_iff)
    next
      case f: False
      then show ?thesis using False by (auto simp: isStemChar_def)
    qed
  qed
qed

lemma isStem_iff:
  "isStem s \<longleftrightarrow> s \<noteq> [] \<and> list_all isStemChar s \<and> noAdjacentHyphens s \<and> hd s \<noteq> 45 \<and> last s \<noteq> 45"
  by (auto simp: isStem_def matchStem_iff)

lemma stemChars_pipeline:
  "list_all isStemChar
     (replaceRuns (\<lambda>c. c = 45) 45 (replaceRuns (\<lambda>c. isWhiteSpace c \<or> c = 95) 45 (blankOthers s)))"
proof -
  let ?b = "blankOthers s"
  let ?w = "replaceRuns (\<lambda>c. isWhiteSpace c \<or> c = 95) 45 ?b"
  have b: "\<forall>c \<in> set ?b. isStemChar c \<or> isWhiteSpace c \<or> c = 95"
    by (auto simp: blankOthers_def isStemChar_def isAlnum_def isWhiteSpace_def)
  have "\<forall>c \<in> set ?w. isStemChar c"
    using set_replaceRuns[of "\<lambda>c. isWhiteSpace c \<or> c = 95" 45 ?b] b
    by (auto simp: isStemChar_def)
  then have "\<forall>c \<in> set (replaceRuns (\<lambda>c. c = 45) 45 ?w). isStemChar c"
    using set_replaceRuns[of "\<lambda>c. c = 45" 45 ?w]
    by (auto simp: isStemChar_def)
  then show ?thesis by (simp add: list_all_iff)
qed

lemma length_stripEdge: "length (stripEdgeHyphens s) \<le> length s"
  by (simp add: stripEdgeHyphens_def Let_def)

lemma cleaned_shape:
  assumes "list_all isStemChar v" and "noAdjacentHyphens v"
  defines "y \<equiv> stripEdgeHyphens (take 60 (stripEdgeHyphens v))"
  shows "length y \<le> 60 \<and> (y \<noteq> [] \<longrightarrow> isStem y)"
proof -
  let ?t = "take 60 (stripEdgeHyphens v)"
  have nt: "noAdjacentHyphens ?t" using assms(2) by (simp add: noAdj_stripEdge noAdj_take)
  have "set y \<subseteq> set v"
    using set_stripEdge[of ?t] set_take_subset[of 60 "stripEdgeHyphens v"] set_stripEdge[of v]
    unfolding y_def by blast
  then have c: "list_all isStemChar y" using assms(1) by (auto simp: list_all_iff)
  have n: "noAdjacentHyphens y" unfolding y_def using nt by (rule noAdj_stripEdge)
  have e: "y \<noteq> [] \<Longrightarrow> hd y \<noteq> 45 \<and> last y \<noteq> 45"
    unfolding y_def using stripEdge_ends[OF nt] by simp
  have "length (stripEdgeHyphens ?t) \<le> length ?t"
    by (rule length_stripEdge)
  then have l: "length y \<le> 60" unfolding y_def by simp
  show ?thesis using c n e l by (auto simp: isStem_iff)
qed

lemma sanitizeFilename_shape:
  "case sanitizeFilename lc input of
     None \<Rightarrow> True
   | Some y \<Rightarrow> y \<noteq> [] \<and> length y \<le> 60 \<and> isStem y \<and> hd y \<noteq> 45 \<and> last y \<noteq> 45"
proof -
  let ?v = "replaceRuns (\<lambda>c. c = 45) 45
            (replaceRuns (\<lambda>c. isWhiteSpace c \<or> c = 95) 45
              (blankOthers (stripExtension (stripQuotes (toLowerCase lc (trim (firstLine
                  input)))))))"
  have "length (stripEdgeHyphens (take 60 (stripEdgeHyphens ?v))) \<le> 60 \<and>
        (stripEdgeHyphens (take 60 (stripEdgeHyphens ?v)) \<noteq> [] \<longrightarrow>
           isStem (stripEdgeHyphens (take 60 (stripEdgeHyphens ?v))))"
    using cleaned_shape[OF stemChars_pipeline noAdj_replaceRuns] .
  then show ?thesis
    by (auto simp: sanitizeFilename_def Let_def isStem_iff)
qed

lemma stemChar_facts:
  assumes "isStemChar c"
  shows "c \<noteq> 10" "\<not> isWhiteSpace c" "c \<noteq> 96" "c \<noteq> 34" "c \<noteq> 39" "c \<noteq> 46" "c \<noteq> 95"
    "isLower c \<or> isDigit c \<or> c = 45" "c < 128" "\<not> isUpper c"
  using assms
  by (auto simp: isStemChar_def isAlnum_def isLower_def isDigit_def isWhiteSpace_def isUpper_def)

lemma stripExtension_no_dot: "46 \<notin> set s \<Longrightarrow> stripExtension s = s"
  by (induction s) auto

lemma replaceRuns_none: "\<forall>c \<in> set s. \<not> cls c \<Longrightarrow> replaceRuns cls r s = s"
  by (induction s) auto

lemma replaceRuns_noAdj: "noAdjacentHyphens s \<Longrightarrow> replaceRuns (\<lambda>c. c = 45) 45 s = s"
proof (induction s)
  case Nil
  then show ?case by simp
next
  case (Cons c cs)
  then have ih: "replaceRuns (\<lambda>c. c = 45) 45 cs = cs" by (simp add: noAdj_Cons_iff)
  show ?case
  proof (cases "c = 45")
    case True
    then have "cs = [] \<or> hd cs \<noteq> 45" using Cons.prems by (simp add: noAdj_Cons_iff)
    then have "dropWhile (\<lambda>c. c = 45) cs = cs" by (cases cs) auto
    then show ?thesis using True ih by simp
  next
    case False
    then show ?thesis using ih by simp
  qed
qed

lemma trim_id: "s \<noteq> [] \<Longrightarrow> \<not> isWhiteSpace (hd s) \<Longrightarrow> \<not> isWhiteSpace (last s) \<Longrightarrow> trim s = s"
proof -
  assume a: "s \<noteq> []" "\<not> isWhiteSpace (hd s)" "\<not> isWhiteSpace (last s)"
  have 1: "dropWhile isWhiteSpace s = s" using a by (cases s) auto
  have "rev s \<noteq> [] \<and> \<not> isWhiteSpace (hd (rev s))" using a by (simp add: hd_rev)
  then have 2: "dropWhile isWhiteSpace (rev s) = rev s" by (cases "rev s") auto
  show ?thesis by (simp add: trim_def 1 2)
qed

lemma stripEdge_id: "s \<noteq> [] \<Longrightarrow> hd s \<noteq> 45 \<Longrightarrow> last s \<noteq> 45 \<Longrightarrow> stripEdgeHyphens s = s"
  by (simp add: stripEdgeHyphens_def)

lemma sanitizeFilename_fixes_stems:
  assumes st: "isStem y" and len: "length y \<le> 60"
  shows "sanitizeFilename lc y = Some y"
proof -
  from st have ne: "y \<noteq> []" and ch: "list_all isStemChar y" and na: "noAdjacentHyphens y"
    and h: "hd y \<noteq> 45" and l: "last y \<noteq> 45"
    by (simp_all add: isStem_iff)
  have all: "\<And>c. c \<in> set y \<Longrightarrow> isStemChar c" using ch by (simp add: list_all_iff)
  have hs: "isStemChar (hd y)" "isStemChar (last y)" using ne all by simp_all
  have "list_all (\<lambda>c. c < 128) y \<and> asciiLower y = y"
    using all stemChar_facts(9,10) by (auto simp: list_all_iff asciiLower_def intro!: map_idI)
  then have lc: "toLowerCase lc y = y" by (simp add: toLowerCase_def)
  have 1: "firstLine y = y"
    unfolding firstLine_def using all stemChar_facts(1) by (auto simp: takeWhile_eq_all_conv)
  have 2: "trim y = y" using ne hs stemChar_facts(2) by (simp add: trim_id)
  have 3: "stripQuotes y = y"
    unfolding stripQuotes_def using all stemChar_facts(3,4,5) by (auto simp: filter_id_conv)
  have 4: "stripExtension y = y" using all stemChar_facts(6) by (auto intro: stripExtension_no_dot)
  have 5: "blankOthers y = y"
    unfolding blankOthers_def using all stemChar_facts(8) by (intro map_idI) force
  have 6: "replaceRuns (\<lambda>c. isWhiteSpace c \<or> c = 95) 45 y = y"
    using all stemChar_facts(2,7) by (auto intro: replaceRuns_none)
  have 7: "replaceRuns (\<lambda>c. c = 45) 45 y = y" using na by (rule replaceRuns_noAdj)
  have 8: "stripEdgeHyphens y = y" using ne h l by (rule stripEdge_id)
  have 9: "take 60 y = y" using len by simp
  show ?thesis by (simp add: sanitizeFilename_def Let_def 1 2 3 4 5 6 7 8 9 lc ne)
qed

text \<open>The automaton accepts exactly the strings that the pattern matches.\<close>

lemma matchStem_word:
  "w \<noteq> [] \<Longrightarrow> list_all isAlnum w \<Longrightarrow> matchStem prev (w @ r) = matchStem True r"
proof (induction w arbitrary: prev)
  case Nil
  then show ?case by simp
next
  case (Cons c w)
  then show ?case by (cases w) auto
qed

lemma hyphenWords_matchStem: "hyphenWords r \<Longrightarrow> matchStem True r"
proof (induction rule: hyphenWords.induct)
  case none
  then show ?case by simp
next
  case (more w r)
  then show ?case using not_alnum_hyphen by (simp add: matchStem_word)
qed

lemma matchStem_decompose:
  "(matchStem True s \<longrightarrow> (\<exists>w r. s = w @ r \<and> list_all isAlnum w \<and> hyphenWords r)) \<and>
   (matchStem False s \<longrightarrow> (\<exists>w r. s = w @ r \<and> w \<noteq> [] \<and> list_all isAlnum w \<and> hyphenWords r))"
proof (induction s)
  case Nil
  have "[] = [] @ ([]::jsstring) \<and> list_all isAlnum [] \<and> hyphenWords []"
    using hyphenWords.none by simp
  then show ?case by (simp only: matchStem.simps) blast
next
  case (Cons c cs)
  from Cons have ih1: "matchStem True cs \<Longrightarrow> \<exists>w r. cs = w @ r \<and> list_all isAlnum w \<and> hyphenWords r"
    by blast
  from Cons have ih2: "matchStem False cs \<Longrightarrow>
      \<exists>w r. cs = w @ r \<and> w \<noteq> [] \<and> list_all isAlnum w \<and> hyphenWords r"
    by blast
  show ?case
  proof (cases "isAlnum c")
    case True
    have e: "matchStem prev (c # cs) = matchStem True cs" for prev using True by simp
    have "\<exists>w r. c # cs = w @ r \<and> w \<noteq> [] \<and> list_all isAlnum w \<and> hyphenWords r"
      if m: "matchStem True cs"
    proof -
      obtain w r where wr: "cs = w @ r" "list_all isAlnum w" "hyphenWords r"
        using ih1[OF m] by blast
      have "c # cs = (c # w) @ r" using wr(1) by simp
      moreover have "c # w \<noteq> []" by simp
      moreover have "list_all isAlnum (c # w)" using True wr(2) by simp
      ultimately show ?thesis using wr(3) by blast
    qed
    then show ?thesis unfolding e by blast
  next
    case False
    show ?thesis
    proof (cases "c = 45")
      case c: True
      have t: "matchStem True (c # cs) = matchStem False cs" using False c by simp
      have f: "matchStem False (c # cs) = False" using False by simp
      have "\<exists>w r. c # cs = w @ r \<and> list_all isAlnum w \<and> hyphenWords r"
        if m: "matchStem False cs"
      proof -
        obtain w r where wr: "cs = w @ r" "w \<noteq> []" "list_all isAlnum w" "hyphenWords r"
          using ih2[OF m] by blast
        have "hyphenWords (45 # w @ r)" using wr(2,3,4) by (rule hyphenWords.more)
        moreover have "c # cs = [] @ (45 # w @ r)" using c wr(1) by simp
        moreover have "list_all isAlnum []" by simp
        ultimately show ?thesis by blast
      qed
      then show ?thesis unfolding t f by blast
    next
      case c: False
      have "matchStem prev (c # cs) = False" for prev using False c by simp
      then show ?thesis by simp
    qed
  qed
qed

lemma isStem_matchesStemPattern: "isStem s \<longleftrightarrow> matchesStemPattern s"
proof
  assume "isStem s"
  then show "matchesStemPattern s"
    using matchStem_decompose[of s] by (simp add: isStem_def matchesStemPattern_def)
next
  assume "matchesStemPattern s"
  then obtain w r where "s = w @ r" "w \<noteq> []" "list_all isAlnum w" "hyphenWords r"
    unfolding matchesStemPattern_def by blast
  then show "isStem s" by (simp add: isStem_def matchStem_word hyphenWords_matchStem)
qed

lemma sanitizeFilename_chain:
  "sanitizeFilename lc input =
     (let cleaned =
        stripEdgeHyphens (take 60 (stripEdgeHyphens
          (replaceRuns (\<lambda>c. c = 45) 45
            (replaceRuns (\<lambda>c. isWhiteSpace c \<or> c = 95) 45
              (blankOthers (stripExtension (stripQuotes
                (toLowerCase lc (trim (firstLine input))))))))))
      in if cleaned = [] then None else Some cleaned)"
  by (simp only: sanitizeFilename_def Let_def)

lemma sanitizeFilename_part000_chain:
  "sanitizeFilename_part000 lc input =
     (let cleaned =
        take 60 (stripEdgeHyphens
          (replaceRuns (\<lambda>c. c = 45) 45
            (replaceRuns (\<lambda>c. isWhiteSpace c \<or> c = 95) 45
              (blankOthers (stripExtension (stripQuotes
                (toLowerCase lc (trim (firstLine input)))))))))
      in if cleaned = [] then None else Some cleaned)"
  by (simp only: sanitizeFilename_part000_def Let_def)

lemmas sanitize_eval = sanitizeFilename_chain js_def toLowerCase_def asciiLower_def firstLine_def
    trim_def
  stripQuotes_def blankOthers_def stripEdgeHyphens_def isWhiteSpace_def isUpper_def isLower_def
  isDigit_def isExtChar_def isStem_def isAlnum_def

text \<open>
  The copy of the class in the unnamed source part ends the chain with \<open>slice(0, 60)\<close>. There
  the same input keeps the hyphen that the cut exposes.
\<close>

lemma sanitizeFilename_part000_trailing_hyphen:
  "sanitizeFilename_part000 asciiLower (js
      ''aaaaaaaaaaaaaaaaaaaaaaaaaaaaaaaaaaaaaaaaaaaaaaaaaaaaaaaaaaa b'') = Some (js
      ''aaaaaaaaaaaaaaaaaaaaaaaaaaaaaaaaaaaaaaaaaaaaaaaaaaaaaaaaaaa-'')"
  by (simp add: sanitize_eval sanitizeFilename_part000_chain)

section \<open>Lemmas about the filename allocation\<close>

lemma basePatternTest_iff: "basePatternTest b f \<longleftrightarrow> isUnsuffixedName b f"
proof
  assume a: "basePatternTest b f"
  define r where "r = drop (length b) f"
  from a have t: "take (length b) f = b" and r: "r \<noteq> []" "hd r = 46" "tl r \<noteq> []"
    "list_all (\<lambda>c. \<not> isLineTerminator c) (tl r)"
    by (simp_all add: basePatternTest_def r_def Let_def)
  have "f = take (length b) f @ drop (length b) f" by simp
  then have "f = b @ r" using t r_def by simp
  moreover have "r = 46 # tl r" using r by (cases r) auto
  ultimately have "f = b @ 46 # tl r" by simp
  then show "isUnsuffixedName b f" using r unfolding isUnsuffixedName_def
    by (auto simp: list_all_iff)
next
  assume "isUnsuffixedName b f"
  then obtain e where "f = b @ 46 # e" "e \<noteq> []" "\<forall>c \<in> set e. \<not> isLineTerminator c"
    unfolding isUnsuffixedName_def by blast
  then show "basePatternTest b f" by (simp add: basePatternTest_def list_all_iff)
qed

lemma baseFilenameExists_iff: "baseFilenameExists files b \<longleftrightarrow> (\<exists>f \<in> set files. isUnsuffixedName b f)"
  by (induction files) (auto simp: basePatternTest_iff)

lemma not_digit_dot: "\<not> isDigit 46"
  by (simp add: isDigit_def)

lemma numberedPatternMatch_iff: "numberedPatternMatch b f = Some ds \<longleftrightarrow> isNumberedName b ds f"
proof
  assume a: "numberedPatternMatch b f = Some ds"
  define r where "r = drop (length b) f"
  define rest where "rest = dropWhile isDigit r"
  from a have t: "take (length b) f = b"
    by (simp add: numberedPatternMatch_def split: if_splits)
  from a t have d: "ds = takeWhile isDigit r" and p: "ds \<noteq> []" "rest \<noteq> []" "hd rest = 46" "tl rest
      \<noteq> []"
    "list_all (\<lambda>c. \<not> isLineTerminator c) (tl rest)"
    by (auto simp: numberedPatternMatch_def r_def rest_def Let_def split: if_splits)
  have "f = take (length b) f @ drop (length b) f" by simp
  then have "f = b @ r" using t r_def by simp
  moreover have "r = ds @ rest" by (simp add: d rest_def)
  moreover have "rest = 46 # tl rest" using p by (cases rest) auto
  ultimately have "f = b @ ds @ 46 # tl rest" by simp
  moreover have "\<forall>c \<in> set ds. isDigit c" unfolding d by (auto dest: set_takeWhileD)
  ultimately show "isNumberedName b ds f" using p unfolding isNumberedName_def
    by (auto simp: list_all_iff)
next
  assume "isNumberedName b ds f"
  then obtain e where f: "f = b @ ds @ 46 # e" and e: "e \<noteq> []" "\<forall>c \<in> set e. \<not> isLineTerminator c"
    and ds: "ds \<noteq> []" "\<forall>c \<in> set ds. isDigit c"
    unfolding isNumberedName_def by blast
  have 1: "takeWhile isDigit (ds @ 46 # e) = ds"
    using ds not_digit_dot by (simp add: takeWhile_append2)
  have 2: "dropWhile isDigit (ds @ 46 # e) = 46 # e"
    using ds not_digit_dot by (simp add: dropWhile_append2)
  show "numberedPatternMatch b f = Some ds"
    using e ds by (simp add: numberedPatternMatch_def f 1 2 list_all_iff not_digit_dot)
qed

lemma set_fold_used:
  "set (fold (\<lambda>file used. case numberedPatternMatch b file of None \<Rightarrow> used
                 | Some ds \<Rightarrow> List.insert (parseInt ds) used) files acc) =
   set acc \<union> {parseInt ds | ds file. file \<in> set files \<and> numberedPatternMatch b file = Some ds}"
proof (induction files arbitrary: acc)
  case Nil
  then show ?case by simp
next
  case (Cons f fs)
  show ?case
  proof (cases "numberedPatternMatch b f")
    case None
    then show ?thesis using Cons[of acc] by auto
  next
    case (Some ds)
    then show ?thesis using Cons[of "List.insert (parseInt ds) acc"] by auto
  qed
qed

lemma set_usedNumbers: "set (usedNumbers files b) = numericSuffixes b files"
  by (simp add: usedNumbers_def set_fold_used numericSuffixes_def numberedPatternMatch_iff)

lemma firstGap_spec:
  "c \<le> firstGap used c \<and> firstGap used c \<notin> set used \<and>
   (\<forall>m. c \<le> m \<and> m < firstGap used c \<longrightarrow> m \<in> set used)"
proof (induction used c rule: firstGap.induct)
  case (1 used c)
  show ?case
  proof (cases "c \<in> set used")
    case True
    then have e: "firstGap used c = firstGap used (c + 1)" by (simp add: firstGap.simps[of used c])
    have ih: "c + 1 \<le> firstGap used (c + 1) \<and> firstGap used (c + 1) \<notin> set used \<and>
      (\<forall>m. c + 1 \<le> m \<and> m < firstGap used (c + 1) \<longrightarrow> m \<in> set used)"
      using 1 True by simp
    have "\<And>m. c \<le> m \<Longrightarrow> m < firstGap used (c + 1) \<Longrightarrow> m \<in> set used"
    proof -
      fix m assume "c \<le> m" "m < firstGap used (c + 1)"
      then show "m \<in> set used" using ih True by (cases "m = c") auto
    qed
    then show ?thesis using ih unfolding e by auto
  next
    case False
    then show ?thesis by (auto simp: firstGap.simps[of used c])
  qed
qed

lemma firstGap_Nil: "firstGap [] c = c"
  by (subst firstGap.simps) simp

lemma firstGap_Least: "firstGap used c = (LEAST n. c \<le> n \<and> n \<notin> set used)"
proof (rule Least_equality[symmetric])
  show "c \<le> firstGap used c \<and> firstGap used c \<notin> set used" using firstGap_spec by blast
next
  fix y assume "c \<le> y \<and> y \<notin> set used"
  then show "firstGap used c \<le> y" using firstGap_spec[of c used] by (meson not_le)
qed

lemma findNextAvailableNumber_Least:
  "findNextAvailableNumber files b = (LEAST n. 0 < n \<and> n \<notin> numericSuffixes b files)"
proof -
  let ?used = "usedNumbers files b"
  have "firstGap ?used 1 = (LEAST n. 0 < n \<and> n \<notin> set ?used)"
    by (simp add: firstGap_Least Suc_le_eq)
  moreover have "?used = [] \<Longrightarrow> firstGap ?used 1 = 1" by (simp add: firstGap_Nil)
  ultimately show ?thesis
    by (auto simp: findNextAvailableNumber_def Let_def set_usedNumbers[symmetric])
qed

lemmas allocator_eval = finalFilename_def findNextAvailableNumber_def usedNumbers_def
  numberedPatternMatch_def basePatternTest_def parseInt_def isDigit_def isLineTerminator_def
  js_def firstGap.simps numberToString.simps List.insert_def

lemma finalFilename_numbered:
  assumes "\<exists>f \<in> set files. isUnsuffixedName baseName f"
  shows "finalFilename baseName ext files =
           baseName @ numberToString (LEAST n. 0 < n \<and> n \<notin> numericSuffixes baseName files) @ ext"
  using assms by (simp add: finalFilename_def baseFilenameExists_iff findNextAvailableNumber_Least)

lemma finalFilename_unsuffixed:
  "\<forall>f \<in> set files. \<not> isUnsuffixedName baseName f \<Longrightarrow> finalFilename baseName ext files = baseName @
      ext"
  by (simp add: finalFilename_def baseFilenameExists_iff)

lemma finalFilename_first_number:
  assumes "\<exists>f \<in> set files. isUnsuffixedName baseName f"
    and "\<forall>f \<in> set files. \<forall>ds. \<not> isNumberedName baseName ds f"
  shows "finalFilename baseName ext files = baseName @ js ''1'' @ ext"
proof -
  have "numericSuffixes baseName files = {}" using assms(2) by (auto simp: numericSuffixes_def)
  then have "usedNumbers files baseName = []" using set_usedNumbers[of files baseName] by simp
  then have "findNextAvailableNumber files baseName = 1" by (simp add: findNextAvailableNumber_def)
  moreover have "numberToString 1 = js ''1''" by (simp add: numberToString.simps js_def)
  ultimately show ?thesis using assms(1) by (simp add: finalFilename_def baseFilenameExists_iff)
qed

section \<open>Lemmas about the backends and the provider chain\<close>

lemma tryCatch_returns: "\<exists>r. fst (tryCatch c) = Inr r"
  by (cases c) (auto simp: tryCatch_def split: sum.splits)

lemma snd_tryCatch: "snd (tryCatch c) = snd c"
  by (cases c) (auto simp: tryCatch_def split: sum.splits)

lemma fst_tryCatch: "fst (tryCatch c) = (case fst c of Inl e \<Rightarrow> Inr None | Inr v \<Rightarrow> Inr v)"
  by (cases c) (auto simp: tryCatch_def split: sum.splits)

lemma fst_settled: "fst (settled c) = Some (fst c)"
  by (cases c) (simp add: settled_def)

lemma snd_settled: "snd (settled c) = snd c"
  by (cases c) (simp add: settled_def)

lemma selectModel_events: "list_all isLocalEvent (snd (selectModel select ss))"
  by (induction ss) (auto split: sum.splits list.splits prod.splits)

lemma selectModel_events_pair: "selectModel select ss = (r, t) \<Longrightarrow> list_all isLocalEvent t"
  using selectModel_events[of select ss] by simp

lemma suggestWithVSCodeLM_events: "list_all isLocalEvent (snd (suggestWithVSCodeLM rt content
    fileExt))"
  unfolding suggestWithVSCodeLM_def snd_tryCatch
  by (auto simp: Let_def split: option.splits sum.splits prod.splits dest: selectModel_events_pair)

lemma suggestWithVSCodeLM_returns: "\<exists>r. fst (suggestWithVSCodeLM rt content fileExt) = Inr r"
  unfolding suggestWithVSCodeLM_def by (rule tryCatch_returns)

lemma sanitizeFilename_nonempty: "sanitizeFilename lc x \<noteq> Some []"
  by (simp add: sanitizeFilename_def Let_def)

lemma suggestWithVSCodeLM_stem:
  "fst (suggestWithVSCodeLM rt content fileExt) = Inr (Some s) \<Longrightarrow> s \<noteq> [] \<and> isStem s"
proof -
  assume a: "fst (suggestWithVSCodeLM rt content fileExt) = Inr (Some s)"
  then obtain x where "sanitizeFilename (unicodeLower rt) x = Some s"
    unfolding suggestWithVSCodeLM_def fst_tryCatch
    by (auto simp: Let_def split: option.splits sum.splits prod.splits if_splits)
  then show ?thesis using sanitizeFilename_shape[of "unicodeLower rt" x] by simp
qed

lemma postJSON_events: "list_all isRemoteEvent (snd (postJSON rt url payload headers))"
  by (auto simp: postJSON_def Let_def split: http_outcome.splits option.splits)

lemma postJSON_events_pair: "postJSON rt url payload headers = (r, t) \<Longrightarrow> list_all isRemoteEvent t"
  using postJSON_events[of rt url payload headers] by auto

lemma suggestWithOpenAI_unfold:
  assumes "orElse (openAIApiKey cfg) [] \<noteq> []"
    and "postJSON rt (js ''https://api.openai.com/v1/chat/completions'')
           (openAIPayload (orElse (openAIModel cfg) (js ''gpt-5-mini'')) content fileExt)
           [(js ''Authorization'', js ''Bearer '' @ orElse (openAIApiKey cfg) [])] = (r, t)"
  shows "snd (suggestWithOpenAI rt cfg content fileExt) = t"
    and "r = None \<Longrightarrow> fst (suggestWithOpenAI rt cfg content fileExt) = None"
    and "r = Some (Inl e) \<Longrightarrow> fst (suggestWithOpenAI rt cfg content fileExt) = Some (Inr None)"
    and "r \<noteq> None \<Longrightarrow> \<exists>v. fst (suggestWithOpenAI rt cfg content fileExt) = Some (Inr v)"
proof -
  show "snd (suggestWithOpenAI rt cfg content fileExt) = t"
    using assms
    by (cases r)
       (auto simp: suggestWithOpenAI_def Let_def snd_settled snd_tryCatch
             split: option.splits sum.splits json.splits)
  show "fst (suggestWithOpenAI rt cfg content fileExt) = None" if "r = None"
    using assms that by (simp add: suggestWithOpenAI_def Let_def)
  show "fst (suggestWithOpenAI rt cfg content fileExt) = Some (Inr None)" if "r = Some (Inl e)"
    using assms that by (simp add: suggestWithOpenAI_def Let_def fst_settled tryCatch_def)
  show "\<exists>v. fst (suggestWithOpenAI rt cfg content fileExt) = Some (Inr v)" if n: "r \<noteq> None"
  proof -
    obtain a where a: "r = Some a" using n by auto
    show ?thesis
      using assms a tryCatch_returns
      by (simp add: suggestWithOpenAI_def Let_def fst_settled)
  qed
qed

lemma suggestWithOpenAI_no_key:
  "orElse (openAIApiKey cfg) [] = [] \<Longrightarrow>
     suggestWithOpenAI rt cfg content fileExt = (Some (Inr None), [])"
  by (simp add: suggestWithOpenAI_def)

lemma suggestWithOpenAI_events: "list_all isRemoteEvent (snd (suggestWithOpenAI rt cfg content
    fileExt))"
proof (cases "orElse (openAIApiKey cfg) [] = []")
  case True
  then show ?thesis by (simp add: suggestWithOpenAI_no_key)
next
  case False
  obtain r t where p: "postJSON rt (js ''https://api.openai.com/v1/chat/completions'')
           (openAIPayload (orElse (openAIModel cfg) (js ''gpt-5-mini'')) content fileExt)
           [(js ''Authorization'', js ''Bearer '' @ orElse (openAIApiKey cfg) [])] = (r, t)"
    by (rule prod.exhaust)
  show ?thesis
    using suggestWithOpenAI_unfold(1)[OF False p] postJSON_events_pair[OF p] by simp
qed

lemma suggestWithOpenAI_cases:
  obtains "fst (suggestWithOpenAI rt cfg content fileExt) = None"
  | v where "fst (suggestWithOpenAI rt cfg content fileExt) = Some (Inr v)"
proof (cases "orElse (openAIApiKey cfg) [] = []")
  case True
  then show ?thesis using that(2) by (simp add: suggestWithOpenAI_no_key)
next
  case False
  obtain r t where p: "postJSON rt (js ''https://api.openai.com/v1/chat/completions'')
           (openAIPayload (orElse (openAIModel cfg) (js ''gpt-5-mini'')) content fileExt)
           [(js ''Authorization'', js ''Bearer '' @ orElse (openAIApiKey cfg) [])] = (r, t)"
    by (rule prod.exhaust)
  show ?thesis
  proof (cases "r = None")
    case True
    then show ?thesis using that(1) suggestWithOpenAI_unfold(2)[OF False p] by simp
  next
    case False
    then show ?thesis using that(2) suggestWithOpenAI_unfold(4)[OF \<open>orElse (openAIApiKey cfg) []
        \<noteq> []\<close> p]
      by blast
  qed
qed

lemma suggestWithOpenAI_never_throws: "fst (suggestWithOpenAI rt cfg content fileExt) \<noteq> Some (Inl
    e)"
  by (cases rule: suggestWithOpenAI_cases[of rt cfg content fileExt]) simp_all

lemma provider_names:
  "js ''vscode'' \<noteq> js ''openai''" "js ''vscode'' \<noteq> js ''auto''" "js ''openai'' \<noteq> js ''auto''"
  "js ''openai'' \<noteq> js ''vscode''" "js ''auto'' \<noteq> js ''vscode''" "js ''auto'' \<noteq> js ''openai''"
  by (simp_all add: js_def)

lemma suggestWithVSCodeLM_cases:
  obtains t where "suggestWithVSCodeLM rt content fileExt = (Inr None, t)"
  | s t where "suggestWithVSCodeLM rt content fileExt = (Inr (Some s), t)" "s \<noteq> []"
proof -
  obtain r t where c: "suggestWithVSCodeLM rt content fileExt = (r, t)"
    by (cases "suggestWithVSCodeLM rt content fileExt")
  obtain v where v: "r = Inr v" using suggestWithVSCodeLM_returns[of rt content fileExt] c by auto
  show thesis
  proof (cases v)
    case None
    then show ?thesis using that(1) c v by simp
  next
    case (Some s)
    then have "s \<noteq> []" using suggestWithVSCodeLM_stem[of rt content fileExt s] c v by simp
    then show ?thesis using that(2) c v Some by simp
  qed
qed

lemma suggestFilename_vscode:
  assumes "orElse (renameProvider cfg) (js ''auto'') = js ''vscode''"
  shows "suggestFilename rt cfg content fileExt =
           (Some (fst (suggestWithVSCodeLM rt content fileExt)),
            SuggestWithVSCodeLM content fileExt # snd (suggestWithVSCodeLM rt content fileExt))"
  by (cases rule: suggestWithVSCodeLM_cases[of rt content fileExt])
     (simp_all add: suggestFilename_def Let_def assms provider_names)

lemma suggestFilename_openai:
  assumes "orElse (renameProvider cfg) (js ''auto'') = js ''openai''"
  shows "suggestFilename rt cfg content fileExt =
           (fst (suggestWithOpenAI rt cfg content fileExt),
            SuggestWithOpenAI content fileExt # snd (suggestWithOpenAI rt cfg content fileExt))"
  by (simp add: suggestFilename_def Let_def assms provider_names split: prod.splits)

lemma suggestFilename_auto:
  assumes "orElse (renameProvider cfg) (js ''auto'') = js ''auto''"
  shows "suggestFilename rt cfg content fileExt =
           (if fst (suggestWithVSCodeLM rt content fileExt) = Inr None
            then (fst (suggestWithOpenAI rt cfg content fileExt),
                  SuggestWithVSCodeLM content fileExt # snd (suggestWithVSCodeLM rt content fileExt)
                      @
                  SuggestWithOpenAI content fileExt # snd (suggestWithOpenAI rt cfg content
                      fileExt))
            else (Some (fst (suggestWithVSCodeLM rt content fileExt)),
                  SuggestWithVSCodeLM content fileExt # snd (suggestWithVSCodeLM rt content
                      fileExt)))"
  by (cases rule: suggestWithVSCodeLM_cases[of rt content fileExt])
     (simp_all add: suggestFilename_def Let_def assms provider_names split: prod.splits)

lemma no_remote_in_local: "list_all isLocalEvent t \<Longrightarrow> \<not> list_ex isRemoteEvent t"
proof (induction t)
  case Nil
  then show ?case by simp
next
  case (Cons e t)
  then show ?case by (cases e) auto
qed

lemma no_local_in_remote: "list_all isRemoteEvent t \<Longrightarrow> \<not> list_ex isLocalEvent t"
proof (induction t)
  case Nil
  then show ?case by simp
next
  case (Cons e t)
  then show ?case by (cases e) auto
qed

lemma exampleSelect_selects:
  "selectModel (exampleSelect fragments) selectors =
     (Inr (Some (ChatModel (\<lambda>prompt. Inr (fragments, None)))),
      [SelectChatModels (selectors ! 0), SelectChatModels (selectors ! 1),
       SelectChatModels (selectors ! 2)])"
  by (simp add: selectors_def exampleSelect_def js_def)

lemma example_sanitized:
  "sanitizeFilename asciiLower (js ''Reverse-'' @ js ''String Helper'') = Some (js
      ''reverse-string-helper'')"
  by (simp add: sanitize_eval)

lemma exampleLocal_result:
  "fst (suggestWithVSCodeLM
         (exampleRuntime (Some (exampleSelect [js ''Reverse-'', js ''String Helper''])) outcome
             parse)
         content fileExt) = Inr (Some (js ''reverse-string-helper''))"
  by (simp add: suggestWithVSCodeLM_def exampleRuntime_def exampleSelect_selects example_sanitized
        tryCatch_def)

lemma exampleConfig_provider:
  "orElse (renameProvider (exampleConfig (Some (js ''vscode'')) key)) (js ''auto'') = js ''vscode''"
  "orElse (renameProvider (exampleConfig (Some (js ''openai'')) key)) (js ''auto'') = js ''openai''"
  "orElse (renameProvider (exampleConfig None key)) (js ''auto'') = js ''auto''"
  by (simp_all add: exampleConfig_def orElse_def js_def)

lemma suggestWithVSCodeLM_present_iff:
  "fst (suggestWithVSCodeLM rt content fileExt) = Inr (Some s) \<longleftrightarrow>
     (\<exists>select model fragments.
        lm rt = Some select \<and> LanguageModelChatMessage rt \<and>
        fst (selectModel select selectors) = Inr (Some model) \<and>
        sendRequest model (lmPrompt content fileExt) = Inr (fragments, None) \<and>
        sanitizeFilename (unicodeLower rt) (concat fragments) = Some s)"
proof (cases "lm rt")
  case None
  then show ?thesis by (simp add: suggestWithVSCodeLM_def tryCatch_def)
next
  case (Some select)
  show ?thesis
  proof (cases "LanguageModelChatMessage rt")
    case False
    then show ?thesis using Some by (simp add: suggestWithVSCodeLM_def tryCatch_def)
  next
    case True
    obtain r t where sm: "selectModel select selectors = (r, t)"
      by (cases "selectModel select selectors")
    show ?thesis
    proof (cases r)
      case (Inl e)
      then show ?thesis using Some True sm by (simp add: suggestWithVSCodeLM_def tryCatch_def)
    next
      case (Inr m)
      show ?thesis
      proof (cases m)
        case None
        then show ?thesis using Some True sm Inr by (simp add: suggestWithVSCodeLM_def tryCatch_def)
      next
        case m: (Some model)
        have "fst (suggestWithVSCodeLM rt content fileExt) = Inr (Some s) \<longleftrightarrow>
          (\<exists>fragments. sendRequest model (lmPrompt content fileExt) = Inr (fragments, None) \<and>
             sanitizeFilename (unicodeLower rt) (concat fragments) = Some s)"
          using Some True sm Inr m
          by (auto simp: suggestWithVSCodeLM_def tryCatch_def Let_def split: sum.splits
              option.splits)
        then show ?thesis using Some True sm Inr m by simp
      qed
    qed
  qed
qed

lemma postJSON_resolves_iff:
  "fst (postJSON rt url payload headers) = Some (Inr data) \<longleftrightarrow>
     (\<exists>code. httpsRequest rt url payload headers timeoutMs = Responded (Some code) data \<and>
             200 \<le> code \<and> code < 300)"
  by (auto simp: postJSON_def Let_def split: http_outcome.splits option.splits)

lemma postJSON_pending_iff:
  "fst (postJSON rt url payload headers) = None \<longleftrightarrow>
     \<not> requestSettles (httpsRequest rt url payload headers timeoutMs)"
  by (auto simp: postJSON_def Let_def split: http_outcome.splits option.splits)

lemma suggestWithOpenAI_pending_iff:
  "fst (suggestWithOpenAI rt cfg content fileExt) = None \<longleftrightarrow>
     orElse (openAIApiKey cfg) [] \<noteq> [] \<and>
     \<not> requestSettles (openAIRequestOutcome rt cfg content fileExt)"
proof (cases "orElse (openAIApiKey cfg) [] = []")
  case True
  then show ?thesis by (simp add: suggestWithOpenAI_no_key)
next
  case False
  let ?url = "js ''https://api.openai.com/v1/chat/completions''"
  let ?payload = "openAIPayload (orElse (openAIModel cfg) (js ''gpt-5-mini'')) content fileExt"
  let ?headers = "[(js ''Authorization'', js ''Bearer '' @ orElse (openAIApiKey cfg) [])]"
  obtain r t where p: "postJSON rt ?url ?payload ?headers = (r, t)"
    by (rule prod.exhaust)
  have r: "r = None \<longleftrightarrow> \<not> requestSettles (openAIRequestOutcome rt cfg content fileExt)"
    using postJSON_pending_iff[of rt ?url ?payload ?headers] p
    by (simp add: openAIRequestOutcome_def)
  show ?thesis
  proof (cases "r = None")
    case True
    then show ?thesis using suggestWithOpenAI_unfold(2)[OF False p] r False by simp
  next
    case n: False
    then show ?thesis using suggestWithOpenAI_unfold(4)[OF False p] r False by auto
  qed
qed

lemma suggestWithOpenAI_present_iff:
  "fst (suggestWithOpenAI rt cfg content fileExt) = Some (Inr (Some s)) \<longleftrightarrow>
     orElse (openAIApiKey cfg) [] \<noteq> [] \<and>
     (\<exists>code data response text.
        openAIRequestOutcome rt cfg content fileExt = Responded (Some code) data \<and>
        200 \<le> code \<and> code < 300 \<and>
        JSON_parse rt data = Some response \<and>
        responseText response = Inr (Some (JString text)) \<and> text \<noteq> [] \<and>
        sanitizeFilename (unicodeLower rt) text = Some s)"
proof (cases "orElse (openAIApiKey cfg) [] = []")
  case True
  then show ?thesis by (simp add: suggestWithOpenAI_def)
next
  case False
  let ?url = "js ''https://api.openai.com/v1/chat/completions''"
  let ?payload = "openAIPayload (orElse (openAIModel cfg) (js ''gpt-5-mini'')) content fileExt"
  let ?headers = "[(js ''Authorization'', js ''Bearer '' @ orElse (openAIApiKey cfg) [])]"
  obtain r t where p: "postJSON rt ?url ?payload ?headers = (r, t)"
    by (rule prod.exhaust)
  have r: "r = Some (Inr data) \<longleftrightarrow>
     (\<exists>code. openAIRequestOutcome rt cfg content fileExt = Responded (Some code) data \<and>
             200 \<le> code \<and> code < 300)" for data
    using postJSON_resolves_iff[of rt ?url ?payload ?headers data] p
    by (simp add: openAIRequestOutcome_def)
  have none: "\<not> (\<exists>code data. openAIRequestOutcome rt cfg content fileExt = Responded (Some code)
      data \<and>
             200 \<le> code \<and> code < 300)" if "\<And>data. r \<noteq> Some (Inr data)"
    using r that by blast
  show ?thesis
  proof (cases r)
    case None
    then have "fst (suggestWithOpenAI rt cfg content fileExt) = None"
      using suggestWithOpenAI_unfold(2)[OF False p] by simp
    moreover have "\<And>data. r \<noteq> Some (Inr data)" using None by simp
    ultimately show ?thesis using none by auto
  next
    case (Some a)
    show ?thesis
    proof (cases a)
      case (Inl e)
      then have "fst (suggestWithOpenAI rt cfg content fileExt) = Some (Inr None)"
        using suggestWithOpenAI_unfold(3)[OF False p] Some by simp
      moreover have "\<And>data. r \<noteq> Some (Inr data)" using Some Inl by simp
      ultimately show ?thesis using none by auto
    next
      case (Inr raw)
      then obtain code where c: "openAIRequestOutcome rt cfg content fileExt = Responded (Some code)
          raw"
        "200 \<le> code" "code < 300" using r Some by blast
      have "fst (suggestWithOpenAI rt cfg content fileExt) = Some (Inr (Some s)) \<longleftrightarrow>
         (\<exists>response text. JSON_parse rt raw = Some response \<and>
            responseText response = Inr (Some (JString text)) \<and> text \<noteq> [] \<and>
            sanitizeFilename (unicodeLower rt) text = Some s)"
        using False p Some Inr
        by (auto simp: suggestWithOpenAI_def Let_def tryCatch_def settled_def truthy_def
                 split: option.splits sum.splits json.splits)
      moreover have "(\<exists>code data response text.
          openAIRequestOutcome rt cfg content fileExt = Responded (Some code) data \<and>
          200 \<le> code \<and> code < 300 \<and>
          JSON_parse rt data = Some response \<and>
          responseText response = Inr (Some (JString text)) \<and> text \<noteq> [] \<and>
          sanitizeFilename (unicodeLower rt) text = Some s) \<longleftrightarrow>
         (\<exists>response text. JSON_parse rt raw = Some response \<and>
            responseText response = Inr (Some (JString text)) \<and> text \<noteq> [] \<and>
            sanitizeFilename (unicodeLower rt) text = Some s)"
        using c by auto
      ultimately show ?thesis using False by simp
    qed
  qed
qed

lemma absent_unless:
  assumes "\<exists>r. fst c = Inr r" and "\<forall>s. fst c \<noteq> Inr (Some s)"
  shows "fst c = Inr None"
proof -
  obtain r where r: "fst c = Inr r" using assms(1) by blast
  then show ?thesis using assms(2) by (cases r) auto
qed

text \<open>
  What holds of the two backends on every input. Neither lets an exception reach its
  caller. The local backend returns a stem when every step succeeded and nothing
  otherwise. The remote backend returns nothing and makes no call when no API key is
  configured. When its request reaches one of the two listeners of \<open>postJSON\<close>, it returns a
  stem when every step succeeded and nothing otherwise, so an error of the request, a
  timeout before the response, a status outside 200..299, a body that does not parse and a
  missing or unusable \<open>choices[0].message.content\<close> all give nothing. When the request
  reaches neither listener, the backend does not return.
\<close>

lemma backends_throw_nothing:
  "(\<exists>r. fst (suggestWithVSCodeLM rt content fileExt) = Inr r) \<and>
   fst (suggestWithOpenAI rt cfg content fileExt) \<noteq> Some (Inl e)"
  using suggestWithVSCodeLM_returns suggestWithOpenAI_never_throws by blast

lemma local_backend_stem_or_nothing:
  "(fst (suggestWithVSCodeLM rt content fileExt) = Inr (Some stem) \<longleftrightarrow>
      localSucceeds rt content fileExt stem) \<and>
   ((\<forall>s. \<not> localSucceeds rt content fileExt s) \<longrightarrow>
      fst (suggestWithVSCodeLM rt content fileExt) = Inr None)"
proof (intro conjI impI)
  show "fst (suggestWithVSCodeLM rt content fileExt) = Inr (Some stem) \<longleftrightarrow>
      localSucceeds rt content fileExt stem"
    unfolding localSucceeds_def by (rule suggestWithVSCodeLM_present_iff)
next
  assume "\<forall>s. \<not> localSucceeds rt content fileExt s"
  then have "\<forall>s. fst (suggestWithVSCodeLM rt content fileExt) \<noteq> Inr (Some s)"
    unfolding localSucceeds_def using suggestWithVSCodeLM_present_iff[of rt content fileExt] by
        blast
  then show "fst (suggestWithVSCodeLM rt content fileExt) = Inr None"
    using suggestWithVSCodeLM_returns[of rt content fileExt] by (rule absent_unless[rotated])
qed

lemma remote_backend_stem_or_nothing:
  "(fst (suggestWithOpenAI rt cfg content fileExt) = Some (Inr (Some stem)) \<longleftrightarrow>
      remoteSucceeds rt cfg content fileExt stem) \<and>
   (requestSettles (openAIRequestOutcome rt cfg content fileExt) \<and>
    (\<forall>s. \<not> remoteSucceeds rt cfg content fileExt s) \<longrightarrow>
      fst (suggestWithOpenAI rt cfg content fileExt) = Some (Inr None)) \<and>
   (orElse (openAIApiKey cfg) [] = [] \<longrightarrow>
      suggestWithOpenAI rt cfg content fileExt = (Some (Inr None), [])) \<and>
   (orElse (openAIApiKey cfg) [] \<noteq> [] \<and>
    \<not> requestSettles (openAIRequestOutcome rt cfg content fileExt) \<longrightarrow>
      fst (suggestWithOpenAI rt cfg content fileExt) = None)"
proof (intro conjI impI)
  show "fst (suggestWithOpenAI rt cfg content fileExt) = Some (Inr (Some stem)) \<longleftrightarrow>
      remoteSucceeds rt cfg content fileExt stem"
    unfolding remoteSucceeds_def by (rule suggestWithOpenAI_present_iff)
next
  assume a: "requestSettles (openAIRequestOutcome rt cfg content fileExt) \<and>
    (\<forall>s. \<not> remoteSucceeds rt cfg content fileExt s)"
  then have n: "\<forall>s. fst (suggestWithOpenAI rt cfg content fileExt) \<noteq> Some (Inr (Some s))"
    unfolding remoteSucceeds_def using suggestWithOpenAI_present_iff[of rt cfg content fileExt] by
        blast
  have "fst (suggestWithOpenAI rt cfg content fileExt) \<noteq> None"
    using a suggestWithOpenAI_pending_iff[of rt cfg content fileExt] by simp
  then obtain v where v: "fst (suggestWithOpenAI rt cfg content fileExt) = Some (Inr v)"
    by (cases rule: suggestWithOpenAI_cases[of rt cfg content fileExt]) simp_all
  show "fst (suggestWithOpenAI rt cfg content fileExt) = Some (Inr None)"
    using v n by (cases v) simp_all
next
  assume "orElse (openAIApiKey cfg) [] = []"
  then show "suggestWithOpenAI rt cfg content fileExt = (Some (Inr None), [])"
    by (rule suggestWithOpenAI_no_key)
next
  assume "orElse (openAIApiKey cfg) [] \<noteq> [] \<and>
    \<not> requestSettles (openAIRequestOutcome rt cfg content fileExt)"
  then show "fst (suggestWithOpenAI rt cfg content fileExt) = None"
    by (simp add: suggestWithOpenAI_pending_iff)
qed

lemma example_no_capability:
  "\<not> localSucceeds (exampleRuntime None outcome parse) content fileExt s"
  by (simp add: localSucceeds_def exampleRuntime_def)

lemma example_timed_out:
  "\<not> remoteSucceeds (exampleRuntime select TimedOut parse) cfg content fileExt s"
  by (simp add: remoteSucceeds_def openAIRequestOutcome_def exampleRuntime_def)

lemma example_no_key: "orElse (openAIApiKey (exampleConfig provider None)) [] = []"
  by (simp add: exampleConfig_def orElse_def)

lemma example_key: "orElse (openAIApiKey (exampleConfig provider (Some (js ''sk-1'')))) [] = js
    ''sk-1''"
  by (simp add: exampleConfig_def orElse_def js_def)

text \<open>
  The remote backend on the stand-in runtime: each failure that reaches a listener gives
  nothing, and a usable answer gives its sanitized stem.
\<close>

lemma responseText_example: "responseText (exampleResponse content) = Inr (Some content)"
  by (simp add: responseText_def exampleResponse_def getMember_def getFirst_def optChain_def js_def
           split: json.splits)

lemma example_postJSON:
  "postJSON (exampleRuntime select outcome parse) url payload headers =
     (case outcome of
        Responded statusCode data \<Rightarrow>
          (case statusCode of
             None \<Rightarrow> (Some (Inl (RequestFailed statusCode data)),
                      [HttpsRequest url payload headers timeoutMs])
           | Some code \<Rightarrow>
               if 200 \<le> code \<and> code < 300
               then (Some (Inr data), [HttpsRequest url payload headers timeoutMs])
               else (Some (Inl (RequestFailed statusCode data)),
                     [HttpsRequest url payload headers timeoutMs]))
      | Errored e \<Rightarrow> (Some (Inl e), [HttpsRequest url payload headers timeoutMs])
      | TimedOut \<Rightarrow>
          (Some (Inl (RequestTimedOut timeoutMs)),
           [HttpsRequest url payload headers timeoutMs, DestroyRequest (RequestTimedOut timeoutMs)])
      | Interrupted statusCode data \<Rightarrow> (None, [HttpsRequest url payload headers timeoutMs])
      | Stalled statusCode data \<Rightarrow>
          (None,
           [HttpsRequest url payload headers timeoutMs, DestroyRequest (RequestTimedOut
               timeoutMs)]))"
  by (auto simp: postJSON_def exampleRuntime_def Let_def split: http_outcome.splits option.splits)

lemma exampleRuntime_fields:
  "unicodeLower (exampleRuntime select outcome parse) = asciiLower"
  "JSON_parse (exampleRuntime select outcome parse) = parse"
  "lm (exampleRuntime select outcome parse) = select"
  "LanguageModelChatMessage (exampleRuntime select outcome parse)"
  by (simp_all add: exampleRuntime_def)

lemma example_key_nonempty: "js ''sk-1'' \<noteq> []"
  by (simp add: js_def)

lemma example_remote_failures:
  "fst (suggestWithOpenAI (exampleRuntime select (Responded (Some 500) data) parse)
         (exampleConfig provider (Some (js ''sk-1''))) content fileExt) = Some (Inr None)"
  "fst (suggestWithOpenAI (exampleRuntime select (Errored e) parse)
         (exampleConfig provider (Some (js ''sk-1''))) content fileExt) = Some (Inr None)"
  "fst (suggestWithOpenAI (exampleRuntime select TimedOut parse)
         (exampleConfig provider (Some (js ''sk-1''))) content fileExt) = Some (Inr None)"
  "fst (suggestWithOpenAI (exampleRuntime select (Responded (Some 200) data) (\<lambda>s. None))
         (exampleConfig provider (Some (js ''sk-1''))) content fileExt) = Some (Inr None)"
  "fst (suggestWithOpenAI (exampleRuntime select (Responded (Some 200) data) (\<lambda>s. Some JNull))
         (exampleConfig provider (Some (js ''sk-1''))) content fileExt) = Some (Inr None)"
  "fst (suggestWithOpenAI (exampleRuntime select (Responded (Some 200) data) (\<lambda>s. Some (JObject
      [])))
         (exampleConfig provider (Some (js ''sk-1''))) content fileExt) = Some (Inr None)"
  by (simp_all add: suggestWithOpenAI_def example_key example_postJSON tryCatch_def settled_def
      Let_def
        truthy_def responseText_def getMember_def optChain_def exampleRuntime_fields
        example_key_nonempty)

lemma example_raw:
  "js ''Reverse-String Helper!! .js'' \<noteq> []"
  "sanitizeFilename asciiLower (js ''Reverse-String Helper!! .js'') = Some (js
      ''reverse-string-helper'')"
  by (simp_all add: sanitize_eval)

lemma example_remote_content:
  "fst (suggestWithOpenAI (exampleRuntime select (Responded (Some 200) data)
           (\<lambda>s. Some (exampleResponse (JNumber 5))))
         (exampleConfig provider (Some (js ''sk-1''))) content fileExt) = Some (Inr None)"
  "fst (suggestWithOpenAI (exampleRuntime select (Responded (Some 200) data)
           (\<lambda>s. Some (exampleResponse (JString (js ''Reverse-String Helper!! .js'')))))
         (exampleConfig provider (Some (js ''sk-1''))) content fileExt) =
     Some (Inr (Some (js ''reverse-string-helper'')))"
  by (simp_all add: suggestWithOpenAI_def example_key example_postJSON tryCatch_def settled_def
      Let_def
        responseText_example truthy_def example_raw exampleRuntime_fields
        example_key_nonempty)

text \<open>
  The request timeout. \<open>postJSON\<close> sets a timeout of 10000 ms on its request, and the
  timeout callback destroys the request. When the callback runs before a response has
  begun, the request emits \<open>error\<close>, the promise rejects and the backend returns nothing.
  The model has no clock: when the callback runs is the HTTP client's matter, whose timer
  counts the time without activity on the socket. The copy of \<open>postJSON\<close> in the unnamed
  source part sets no timeout.
\<close>

lemma request_timeout_is_absent:
  assumes "orElse (openAIApiKey cfg) [] \<noteq> []"
    and "openAIRequestOutcome rt cfg content fileExt = TimedOut"
  shows "\<exists>url payload headers.
           suggestWithOpenAI rt cfg content fileExt =
             (Some (Inr None),
              [HttpsRequest url payload headers 10000, DestroyRequest (RequestTimedOut 10000)])"
  using assms
  by (simp add: suggestWithOpenAI_def openAIRequestOutcome_def postJSON_def tryCatch_def
        settled_def Let_def timeoutMs_def)

lemma example_request:
  "suggestWithOpenAI (exampleRuntime select outcome parse)
      (exampleConfig provider (Some (js ''sk-1''))) content fileExt =
     (case postJSON (exampleRuntime select outcome parse)
             (js ''https://api.openai.com/v1/chat/completions'')
             (openAIPayload (js ''gpt-5-mini'') content fileExt)
             [(js ''Authorization'', js ''Bearer sk-1'')] of
        (None, t) \<Rightarrow> (None, t)
      | (Some awaited, t) \<Rightarrow>
          settled
            (tryCatch
               (case awaited of
                  Inl e \<Rightarrow> (Inl e, t)
                | Inr rawResponse \<Rightarrow>
                    (case parse rawResponse of
                       None \<Rightarrow> (Inl SyntaxError, t)
                     | Some response \<Rightarrow>
                         (case responseText response of
                            Inl e \<Rightarrow> (Inl e, t)
                          | Inr text \<Rightarrow>
                              if \<not> truthy text then (Inr None, t)
                              else
                                (case text of
                                   Some (JString s) \<Rightarrow> (Inr (sanitizeFilename asciiLower s), t)
                                 | _ \<Rightarrow> (Inl TypeError, t)))))))"
proof -
  have k: "orElse (openAIApiKey (exampleConfig provider (Some (js ''sk-1'')))) [] = js ''sk-1''"
    by (rule example_key)
  have m: "orElse (openAIModel (exampleConfig provider (Some (js ''sk-1'')))) (js ''gpt-5-mini'') =
      js ''gpt-5-mini''"
    by (simp add: exampleConfig_def orElse_def)
  have b: "js ''Bearer '' @ js ''sk-1'' = js ''Bearer sk-1''"
    by (simp add: js_def)
  show ?thesis
    unfolding suggestWithOpenAI_def Let_def k m b exampleRuntime_fields
    using example_key_nonempty by simp
qed

section \<open>Lemmas about the automatic renaming\<close>

lemma scratchNamePatternTest_iff:
  "scratchNamePatternTest configuredPrefix name \<longleftrightarrow> isAutoManagedName configuredPrefix name"
proof
  assume a: "scratchNamePatternTest configuredPrefix name"
  have t: "take (length configuredPrefix) name = configuredPrefix"
    using a by (simp add: scratchNamePatternTest_def)
  have "name = configuredPrefix @ drop (length configuredPrefix) name"
    using append_take_drop_id[of "length configuredPrefix" name] unfolding t by simp
  then show "isAutoManagedName configuredPrefix name"
    using a unfolding isAutoManagedName_def scratchNamePatternTest_def list_all_iff by blast
next
  assume "isAutoManagedName configuredPrefix name"
  then show "scratchNamePatternTest configuredPrefix name"
    by (auto simp: isAutoManagedName_def scratchNamePatternTest_def list_all_iff)
qed

lemma minChars_le: "int n < configuredMinimum cfg \<Longrightarrow> int n < minChars cfg"
  by (auto simp: configuredMinimum_def minChars_def split: option.splits)

lemma autoRename_gated:
  assumes "\<not> isScratchpadDocument rt h cfg doc \<or>
           int (length (trim (getText doc))) < minChars cfg \<or>
           \<not> scratchNamePatternTest (orElse (filePrefix cfg) (js ''scratch'')) (currentBaseName h
               doc)"
  shows "snd (autoRenameScratchpadFromDocument rt h cfg doc) = [] \<and>
         fst (autoRenameScratchpadFromDocument rt h cfg doc) \<in> {NotAScratchpad, BelowMinChars,
             NotAutoNamed}"
  using assms by (auto simp: autoRenameScratchpadFromDocument_def Let_def)

lemma autoRename_passed:
  assumes "isScratchpadDocument rt h cfg doc"
    and "\<not> int (length (trim (getText doc))) < minChars cfg"
    and "scratchNamePatternTest (orElse (filePrefix cfg) (js ''scratch'')) (currentBaseName h doc)"
  shows "autoRenameScratchpadFromDocument rt h cfg doc =
           (case requestedSuggestion rt h cfg doc of
              (None, t) \<Rightarrow> (NeverResumed, t)
            | (Some (Inl e), t) \<Rightarrow> (SuggestionThrew, t)
            | (Some (Inr suggestion), t) \<Rightarrow>
                (fst (afterSuggestion rt h doc suggestion),
                 t @ snd (afterSuggestion rt h doc suggestion)))"
  using assms
  by (simp add: autoRenameScratchpadFromDocument_def requestedSuggestion_def Let_def
           split: prod.splits sum.splits option.splits)

lemma afterSuggestion_stops:
  assumes "suggestion = None \<or> suggestion = Some [] \<or> suggestion = Some (currentBaseName h doc) \<or>
           (\<exists>s. suggestion = Some s \<and>
              (normalizePath rt h (destinationPath h doc s) = normalizePath rt h (fileName doc) \<or>
               existsSync h (destinationPath h doc s)))"
  shows "snd (afterSuggestion rt h doc suggestion) = [] \<and>
         fst (afterSuggestion rt h doc suggestion) \<in> {EmptyOrUnchanged, SamePath,
             DestinationExists}"
  using assms
  by (auto simp: afterSuggestion_def destinationPath_def Let_def split: option.splits)

lemma suggestFilename_events:
  "list_all isProviderEvent (snd (suggestFilename rt cfg content fileExt))"
proof -
  have l: "list_all isProviderEvent (snd (suggestWithVSCodeLM rt content fileExt))"
    using suggestWithVSCodeLM_events[of rt content fileExt] by (auto simp: list_all_iff)
  have r: "list_all isProviderEvent (snd (suggestWithOpenAI rt cfg content fileExt))"
    using suggestWithOpenAI_events[of rt cfg content fileExt] by (auto simp: list_all_iff)
  show ?thesis
    using l r
    by (auto simp: suggestFilename_def Let_def split: prod.splits sum.splits)
qed

lemma provider_not_rename: "list_all isProviderEvent t \<Longrightarrow> \<not> list_ex isRenameEvent t"
proof (induction t)
  case Nil
  then show ?case by simp
next
  case (Cons e t)
  then show ?case by (cases e) auto
qed

lemma suggestWithOpenAI_stem:
  "fst (suggestWithOpenAI rt cfg content fileExt) = Some (Inr (Some s)) \<Longrightarrow> s \<noteq> [] \<and> isStem s"
proof -
  assume "fst (suggestWithOpenAI rt cfg content fileExt) = Some (Inr (Some s))"
  then obtain x where "sanitizeFilename (unicodeLower rt) x = Some s"
    using suggestWithOpenAI_present_iff[of rt cfg content fileExt s] by blast
  then show ?thesis using sanitizeFilename_shape[of "unicodeLower rt" x] by simp
qed

lemma suggestFilename_stem:
  assumes "fst (suggestFilename rt cfg content fileExt) = Some (Inr (Some s))"
  shows "s \<noteq> [] \<and> isStem s"
proof -
  have "fst (suggestFilename rt cfg content fileExt) = Some (fst (suggestWithVSCodeLM rt content
      fileExt)) \<or>
        fst (suggestFilename rt cfg content fileExt) = fst (suggestWithOpenAI rt cfg content
            fileExt) \<or>
        fst (suggestFilename rt cfg content fileExt) = Some (Inr None)"
    by (auto simp: suggestFilename_def Let_def split: prod.splits sum.splits)
  then show ?thesis
    using assms suggestWithVSCodeLM_stem[of rt content fileExt s]
      suggestWithOpenAI_stem[of rt cfg content fileExt s] by auto
qed

lemma commitRename_events:
  "RenameFile a b \<in> set (snd (commitRename h currentFilePath newFilePath)) \<Longrightarrow>
     a = currentFilePath \<and> b = newFilePath"
  by (auto simp: commitRename_def split: sum.splits option.splits if_splits)

lemma afterSuggestion_events:
  assumes "RenameFile a b \<in> set (snd (afterSuggestion rt h doc suggestion))"
  shows "a = fileName doc \<and> (\<exists>s. suggestion = Some s \<and> b = destinationPath h doc s)"
proof (cases suggestion)
  case None
  then show ?thesis using assms by (simp add: afterSuggestion_def)
next
  case (Some s)
  then have "RenameFile a b \<in> set (snd (commitRename h (fileName doc) (destinationPath h doc s)))"
    using assms by (auto simp: afterSuggestion_def destinationPath_def Let_def split: if_splits)
  then show ?thesis using Some commitRename_events by blast
qed

lemma provider_events_no_rename:
  "list_all isProviderEvent t \<Longrightarrow> RenameFile a b \<notin> set t"
  by (auto simp: list_all_iff)

lemma autoRename_rename_events:
  assumes "RenameFile a b \<in> set (snd (autoRenameScratchpadFromDocument rt h cfg doc))"
  shows "a = fileName doc \<and>
         (\<exists>s. fst (requestedSuggestion rt h cfg doc) = Some (Inr (Some s)) \<and> b = destinationPath h
             doc s)"
proof -
  have ne: "snd (autoRenameScratchpadFromDocument rt h cfg doc) \<noteq> []"
    using assms by auto
  have "\<not> (\<not> isScratchpadDocument rt h cfg doc \<or>
           int (length (trim (getText doc))) < minChars cfg \<or>
           \<not> scratchNamePatternTest (orElse (filePrefix cfg) (js ''scratch'')) (currentBaseName h
               doc))"
    using ne autoRename_gated[of rt h cfg doc] by blast
  then have g: "isScratchpadDocument rt h cfg doc"
    "\<not> int (length (trim (getText doc))) < minChars cfg"
    "scratchNamePatternTest (orElse (filePrefix cfg) (js ''scratch'')) (currentBaseName h doc)"
    by blast+
  obtain r t where q: "requestedSuggestion rt h cfg doc = (r, t)"
    by (cases "requestedSuggestion rt h cfg doc")
  have t: "RenameFile a b \<notin> set t"
    using suggestFilename_events[of rt cfg "take 6000 (trim (getText doc))" "extname h (basename h
        (fileName doc))"] q
    by (auto simp: requestedSuggestion_def dest: provider_events_no_rename)
  show ?thesis
  proof (cases r)
    case None
    then show ?thesis using assms t q by (simp add: autoRename_passed[OF g])
  next
    case (Some awaited)
    show ?thesis
    proof (cases awaited)
      case (Inl e)
      then show ?thesis using assms t q Some by (simp add: autoRename_passed[OF g])
    next
      case (Inr suggestion)
      then have "RenameFile a b \<in> set (snd (afterSuggestion rt h doc suggestion))"
        using assms t q Some by (simp add: autoRename_passed[OF g])
      then show ?thesis using afterSuggestion_events q Some Inr by fastforce
    qed
  qed
qed

lemma no_rename_when_stopped:
  assumes g: "isScratchpadDocument rt h cfg doc"
    "\<not> int (length (trim (getText doc))) < minChars cfg"
    "scratchNamePatternTest (orElse (filePrefix cfg) (js ''scratch'')) (currentBaseName h doc)"
    and r: "fst (requestedSuggestion rt h cfg doc) = Some (Inr suggestion)"
    and s: "suggestion = None \<or> suggestion = Some (currentBaseName h doc) \<or>
           (\<exists>s. suggestion = Some s \<and>
              (normalizePath rt h (destinationPath h doc s) = normalizePath rt h (fileName doc) \<or>
               existsSync h (destinationPath h doc s)))"
  shows "snd (autoRenameScratchpadFromDocument rt h cfg doc) = snd (requestedSuggestion rt h cfg
      doc) \<and>
         \<not> list_ex isRenameEvent (snd (autoRenameScratchpadFromDocument rt h cfg doc)) \<and>
         fst (autoRenameScratchpadFromDocument rt h cfg doc) \<in>
           {EmptyOrUnchanged, SamePath, DestinationExists}"
proof -
  obtain t where q: "requestedSuggestion rt h cfg doc = (Some (Inr suggestion), t)"
    using r by (cases "requestedSuggestion rt h cfg doc") auto
  have a: "snd (afterSuggestion rt h doc suggestion) = [] \<and>
         fst (afterSuggestion rt h doc suggestion) \<in> {EmptyOrUnchanged, SamePath,
             DestinationExists}"
    using s by (intro afterSuggestion_stops) blast
  have e: "autoRenameScratchpadFromDocument rt h cfg doc = (fst (afterSuggestion rt h doc
      suggestion), t)"
    using a q by (simp add: autoRename_passed[OF g])
  have "list_all isProviderEvent t"
    using suggestFilename_events[of rt cfg "take 6000 (trim (getText doc))" "extname h (basename h
        (fileName doc))"] q
    by (simp add: requestedSuggestion_def)
  then have "\<not> list_ex isRenameEvent t" by (rule provider_not_rename)
  then show ?thesis using e a q by simp
qed

lemmas host_eval = exampleHost_def exampleConfig_def exampleDocument_def posixBasename_def
  posixDirname_def posixExtname_def posixBasenameWithout_def posixRelative_def
  isScratchpadDocument_def normalizePath_def isPathInsideRoot_def currentBaseName_def
  scratchNamePatternTest_def minChars_def configuredMinimum_def orElse_def isDigit_def js_def
  buildFinalFilename_def destinationPath_def

lemma example_in_folder:
  "isScratchpadDocument rt (exampleHost existing) (exampleConfig provider key)
     (exampleDocument (js ''/work/scratchpads/scratch3.js'') text)"
  "isScratchpadDocument rt (exampleHost existing) (exampleConfig provider key)
     (exampleDocument (js ''/work/scratchpads/scratch3'') text)"
  "isScratchpadDocument rt (exampleHost existing) (exampleConfig provider key)
     (exampleDocument (js ''/work/scratchpads/notes.js'') text)"
  "\<not> isScratchpadDocument rt (exampleHost existing) (exampleConfig provider key)
     (exampleDocument (js ''/work/other/scratch3.js'') text)"
  by (simp_all add: host_eval)

lemma example_base_names:
  "currentBaseName (exampleHost existing) (exampleDocument (js ''/work/scratchpads/scratch3.js'')
      text) = js ''scratch3''"
  "currentBaseName (exampleHost existing) (exampleDocument (js ''/work/scratchpads/scratch3'') text)
      = js ''scratch3''"
  "currentBaseName (exampleHost existing) (exampleDocument (js ''/work/scratchpads/notes.js'') text)
      = js ''notes''"
  by (simp_all add: host_eval)

lemma example_extnames:
  "extname (exampleHost existing) (js ''/work/scratchpads/scratch3.js'') = js ''.js''"
  "extname (exampleHost existing) (js ''/work/scratchpads/scratch3'') = []"
  "extname (exampleHost existing) (basename (exampleHost existing) (js
      ''/work/scratchpads/scratch3.js'')) = js ''.js''"
  "extname (exampleHost existing) (basename (exampleHost existing) (js
      ''/work/scratchpads/scratch3'')) = []"
  by (simp_all add: host_eval)

lemma example_names:
  "scratchNamePatternTest (orElse (filePrefix (exampleConfig provider key)) (js ''scratch'')) (js
      ''scratch3'')"
  "\<not> scratchNamePatternTest (orElse (filePrefix (exampleConfig provider key)) (js ''scratch'')) (js
      ''notes'')"
  by (simp_all add: host_eval)

lemma example_lengths:
  "\<not> int (length (trim exampleText)) < minChars (exampleConfig provider key)"
  "int (length (trim (js ''let x = 1''))) < configuredMinimum (exampleConfig provider key)"
  by (simp_all add: host_eval exampleText_def trim_def isWhiteSpace_def)

lemma exampleDocument_fields:
  "fileName (exampleDocument path text) = path"
  "getText (exampleDocument path text) = text"
  by (simp_all add: exampleDocument_def)

lemma exampleLocal_general:
  "suggestWithVSCodeLM (exampleRuntime (Some (exampleSelect fragments)) outcome parse) content
      fileExt =
     (Inr (sanitizeFilename asciiLower (concat fragments)),
      [SelectChatModels (selectors ! 0), SelectChatModels (selectors ! 1),
       SelectChatModels (selectors ! 2), SendRequest (lmPrompt content fileExt)])"
  by (simp add: suggestWithVSCodeLM_def exampleRuntime_fields exampleSelect_selects tryCatch_def)

lemma exampleLocal_none:
  "suggestWithVSCodeLM (exampleRuntime None outcome parse) content fileExt = (Inr None, [])"
  by (simp add: suggestWithVSCodeLM_def exampleRuntime_fields tryCatch_def)

lemma example_auto_absent:
  "suggestFilename (exampleRuntime None outcome parse) defaultConfig content fileExt =
     (Some (Inr None), [SuggestWithVSCodeLM content fileExt, SuggestWithOpenAI content fileExt])"
  using suggestFilename_auto[where cfg = "exampleConfig None None"
      and rt = "exampleRuntime None outcome parse" and content = content and fileExt = fileExt,
      OF exampleConfig_provider(3)]
  by (simp add: exampleLocal_none suggestWithOpenAI_no_key[OF example_no_key])

lemma example_auto_local:
  assumes "sanitizeFilename asciiLower (concat fragments) = Some stem"
  shows "fst (suggestFilename (exampleRuntime (Some (exampleSelect fragments)) outcome parse)
               (exampleConfig None key) content fileExt) = Some (Inr (Some stem))"
  using suggestFilename_auto[where cfg = "exampleConfig None key"
      and rt = "exampleRuntime (Some (exampleSelect fragments)) outcome parse"
      and content = content and fileExt = fileExt, OF exampleConfig_provider(3)]
  by (simp add: exampleLocal_general assms)

lemma example_stems:
  "sanitizeFilename asciiLower (concat [js ''Reverse-'', js ''String Helper'']) = Some (js
      ''reverse-string-helper'')"
  "sanitizeFilename asciiLower (concat [js ''scratch3'']) = Some (js ''scratch3'')"
  by (simp_all add: sanitize_eval)

lemma example_destinations:
  "destinationPath (exampleHost existing) (exampleDocument (js ''/work/scratchpads/scratch3.js'')
      text)
     (js ''reverse-string-helper'') = js ''/work/scratchpads/reverse-string-helper.js''"
  "destinationPath (exampleHost existing) (exampleDocument (js ''/work/scratchpads/scratch3'') text)
     (js ''reverse-string-helper'') = js ''/work/scratchpads/reverse-string-helper''"
  by (simp_all add: host_eval)

lemma example_commit:
  "commitRename (exampleHost existing) a b = (Renamed, [RenameFile a b])"
  by (simp add: commitRename_def exampleHost_def)

lemma afterSuggestion_Some:
  "afterSuggestion rt h doc (Some s) =
     (if s = [] \<or> s = currentBaseName h doc then (EmptyOrUnchanged, [])
      else if normalizePath rt h (destinationPath h doc s) = normalizePath rt h (fileName doc)
           then (SamePath, [])
      else if existsSync h (destinationPath h doc s) then (DestinationExists, [])
      else commitRename h (fileName doc) (destinationPath h doc s))"
  by (simp add: afterSuggestion_def destinationPath_def Let_def)

lemma example_normalized:
  "normalizePath rt (exampleHost existing) (js ''/work/scratchpads/scratch3.js'') = js
      ''/work/scratchpads/scratch3.js''"
  "normalizePath rt (exampleHost existing) (js ''/work/scratchpads/scratch3'') = js
      ''/work/scratchpads/scratch3''"
  "normalizePath rt (exampleHost existing) (js ''/work/scratchpads/reverse-string-helper.js'') = js
      ''/work/scratchpads/reverse-string-helper.js''"
  "normalizePath rt (exampleHost existing) (js ''/work/scratchpads/reverse-string-helper'') = js
      ''/work/scratchpads/reverse-string-helper''"
  by (simp_all add: host_eval)

lemma example_paths_differ:
  "js ''/work/scratchpads/reverse-string-helper.js'' \<noteq> js ''/work/scratchpads/scratch3.js''"
  "js ''/work/scratchpads/reverse-string-helper'' \<noteq> js ''/work/scratchpads/scratch3''"
  "js ''reverse-string-helper'' \<noteq> []"
  "js ''reverse-string-helper'' \<noteq> js ''scratch3''"
  by (simp_all add: js_def)

lemma example_exists: "existsSync (exampleHost existing) p \<longleftrightarrow> p \<in> set existing"
  by (simp add: exampleHost_def)

lemma example_after:
  "afterSuggestion rt (exampleHost []) (exampleDocument (js ''/work/scratchpads/scratch3.js'') text)
     (Some (js ''reverse-string-helper'')) =
   (Renamed, [RenameFile (js ''/work/scratchpads/scratch3.js'')
                (js ''/work/scratchpads/reverse-string-helper.js'')])"
  "afterSuggestion rt (exampleHost []) (exampleDocument (js ''/work/scratchpads/scratch3'') text)
     (Some (js ''reverse-string-helper'')) =
   (Renamed, [RenameFile (js ''/work/scratchpads/scratch3'')
                (js ''/work/scratchpads/reverse-string-helper'')])"
  by (simp_all add: afterSuggestion_Some example_commit example_base_names example_destinations
        example_normalized example_paths_differ example_exists exampleDocument_fields)

lemma example_gates:
  "isAutoManagedName (orElse (filePrefix (exampleConfig provider key)) (js ''scratch''))
     (currentBaseName (exampleHost existing) (exampleDocument (js ''/work/scratchpads/scratch3.js'')
         text))"
  "isAutoManagedName (orElse (filePrefix (exampleConfig provider key)) (js ''scratch''))
     (currentBaseName (exampleHost existing) (exampleDocument (js ''/work/scratchpads/scratch3'')
         text))"
  "\<not> int (length (trim (getText (exampleDocument path exampleText)))) < minChars (exampleConfig
      provider key)"
  by (simp_all add: scratchNamePatternTest_iff[symmetric] example_base_names example_names
        exampleDocument_fields example_lengths)

lemma example_requested_local:
  assumes "sanitizeFilename asciiLower (concat fragments) = Some stem"
  shows "fst (requestedSuggestion (exampleLMRuntime fragments) h (exampleConfig None key) doc) =
      Some (Inr (Some stem))"
  unfolding requestedSuggestion_def exampleLMRuntime_def using assms by (rule example_auto_local)

lemma example_requested_absent:
  "fst (requestedSuggestion exampleBareRuntime h defaultConfig doc) = Some (Inr None)"
  unfolding requestedSuggestion_def exampleBareRuntime_def by (simp add: example_auto_absent)

lemma example_renamed:
  assumes "fst (requestedSuggestion rt (exampleHost []) (exampleConfig None key)
                  scratch3plain) =
           Some (Inr (Some (js ''reverse-string-helper'')))"
  shows "autoRenameScratchpadFromDocument rt (exampleHost []) (exampleConfig None key)
           scratch3plain =
         (Renamed,
          snd (requestedSuggestion rt (exampleHost []) (exampleConfig None key)
                 scratch3plain) @
          [RenameFile (js ''/work/scratchpads/scratch3'')
             (js ''/work/scratchpads/reverse-string-helper'')])"
proof -
  let ?doc = "exampleDocument (js ''/work/scratchpads/scratch3'') exampleText"
  obtain t where q: "requestedSuggestion rt (exampleHost []) (exampleConfig None key) ?doc =
      (Some (Inr (Some (js ''reverse-string-helper''))), t)"
    using assms by (cases "requestedSuggestion rt (exampleHost []) (exampleConfig None key) ?doc")
        auto
  have g1: "isScratchpadDocument rt (exampleHost []) (exampleConfig None key) ?doc"
    by (rule example_in_folder)
  have g2: "\<not> int (length (trim (getText ?doc))) < minChars (exampleConfig None key)"
    by (rule example_gates)
  have g3: "scratchNamePatternTest (orElse (filePrefix (exampleConfig None key)) (js ''scratch''))
              (currentBaseName (exampleHost []) ?doc)"
    unfolding scratchNamePatternTest_iff by (rule example_gates)
  show ?thesis
    using autoRename_passed[OF g1 g2 g3] by (simp add: q example_after)
qed

lemma example_auto_local_cfg:
  assumes "orElse (renameProvider cfg) (js ''auto'') = js ''auto''"
    and "sanitizeFilename asciiLower (concat fragments) = Some stem"
  shows "fst (suggestFilename (exampleRuntime (Some (exampleSelect fragments)) outcome parse)
               cfg content fileExt) = Some (Inr (Some stem))"
  using suggestFilename_auto[where cfg = cfg
      and rt = "exampleRuntime (Some (exampleSelect fragments)) outcome parse"
      and content = content and fileExt = fileExt, OF assms(1)]
  by (simp add: exampleLocal_general assms(2))

lemma caseBlind_facts:
  "isScratchpadDocument (exampleLMRuntime fragments) exampleCaseBlindHost exampleCapitalConfig
     (exampleDocument (js ''/work/scratchpads/Scratch3.js'') exampleText)"
  "\<not> int (length (trim (getText (exampleDocument (js ''/work/scratchpads/Scratch3.js'')
      exampleText))))
       < minChars exampleCapitalConfig"
  "isAutoManagedName (orElse (filePrefix exampleCapitalConfig) (js ''scratch''))
     (currentBaseName exampleCaseBlindHost (exampleDocument (js ''/work/scratchpads/Scratch3.js'')
         exampleText))"
  "fst (requestedSuggestion (exampleLMRuntime [js ''scratch3'']) exampleCaseBlindHost
      exampleCapitalConfig
          (exampleDocument (js ''/work/scratchpads/Scratch3.js'') exampleText)) = Some (Inr (Some
              (js ''scratch3'')))"
  "normalizePath (exampleLMRuntime [js ''scratch3'']) exampleCaseBlindHost
     (destinationPath exampleCaseBlindHost
        (exampleDocument (js ''/work/scratchpads/Scratch3.js'') exampleText) (js ''scratch3'')) =
   normalizePath (exampleLMRuntime [js ''scratch3'']) exampleCaseBlindHost
     (fileName (exampleDocument (js ''/work/scratchpads/Scratch3.js'') exampleText))"
proof -
  show "isScratchpadDocument (exampleLMRuntime fragments) exampleCaseBlindHost exampleCapitalConfig
     (exampleDocument (js ''/work/scratchpads/Scratch3.js'') exampleText)"
    by (simp add: host_eval exampleCaseBlindHost_def exampleCapitalConfig_def exampleLMRuntime_def
          exampleRuntime_fields toLowerCase_def asciiLower_def isUpper_def)
  show "\<not> int (length (trim (getText (exampleDocument (js ''/work/scratchpads/Scratch3.js'')
      exampleText))))
       < minChars exampleCapitalConfig"
    by (simp add: host_eval exampleCapitalConfig_def exampleText_def trim_def isWhiteSpace_def)
  show "isAutoManagedName (orElse (filePrefix exampleCapitalConfig) (js ''scratch''))
     (currentBaseName exampleCaseBlindHost (exampleDocument (js ''/work/scratchpads/Scratch3.js'')
         exampleText))"
    unfolding scratchNamePatternTest_iff[symmetric]
    by (simp add: host_eval exampleCaseBlindHost_def exampleCapitalConfig_def)
  have "orElse (renameProvider exampleCapitalConfig) (js ''auto'') = js ''auto''"
    by (simp add: exampleCapitalConfig_def exampleConfig_def orElse_def)
  then show "fst (requestedSuggestion (exampleLMRuntime [js ''scratch3'']) exampleCaseBlindHost
      exampleCapitalConfig
          (exampleDocument (js ''/work/scratchpads/Scratch3.js'') exampleText)) = Some (Inr (Some
              (js ''scratch3'')))"
    unfolding requestedSuggestion_def exampleLMRuntime_def
    by (rule example_auto_local_cfg) (rule example_stems)
  show "normalizePath (exampleLMRuntime [js ''scratch3'']) exampleCaseBlindHost
     (destinationPath exampleCaseBlindHost
        (exampleDocument (js ''/work/scratchpads/Scratch3.js'') exampleText) (js ''scratch3'')) =
   normalizePath (exampleLMRuntime [js ''scratch3'']) exampleCaseBlindHost
     (fileName (exampleDocument (js ''/work/scratchpads/Scratch3.js'') exampleText))"
    by (simp add: host_eval exampleCaseBlindHost_def exampleLMRuntime_def
          exampleRuntime_fields toLowerCase_def asciiLower_def isUpper_def)
qed

lemma filter_rename_provider: "list_all isProviderEvent t \<Longrightarrow> filter isRenameEvent t = []"
proof (induction t)
  case Nil
  then show ?case by simp
next
  case (Cons e t)
  then show ?case by (cases e) auto
qed

lemma example_requested_remote:
  "fst (requestedSuggestion (exampleRemoteRuntime (js ''Reverse-String Helper!! .js'')) h
          (exampleConfig None (Some (js ''sk-1''))) doc) = Some (Inr (Some (js
              ''reverse-string-helper'')))"
  unfolding requestedSuggestion_def exampleRemoteRuntime_def
  using suggestFilename_auto[where cfg = "exampleConfig None (Some (js ''sk-1''))"
      and rt = "exampleRuntime None (Responded (Some 200) (js ''{}''))
                  (\<lambda>s. Some (exampleResponse (JString (js ''Reverse-String Helper!! .js''))))",
      OF exampleConfig_provider(3)]
  by (simp add: exampleLocal_none example_remote_content)

lemma end_to_end_example:
  "fst (autoRenameScratchpadFromDocument (exampleRemoteRuntime (js ''Reverse-String Helper!! .js''))
          (exampleHost []) (exampleConfig None (Some (js ''sk-1'')))
          scratch3js) = Renamed \<and>
   filter isRenameEvent
     (snd (autoRenameScratchpadFromDocument (exampleRemoteRuntime (js
         ''Reverse-String Helper!! .js''))
          (exampleHost []) (exampleConfig None (Some (js ''sk-1'')))
          scratch3js)) =
     [RenameFile (js ''/work/scratchpads/scratch3.js'') (js
         ''/work/scratchpads/reverse-string-helper.js'')]"
proof -
  let ?rt = "exampleRemoteRuntime (js ''Reverse-String Helper!! .js'')"
  let ?cfg = "exampleConfig None (Some (js ''sk-1''))"
  let ?doc = "exampleDocument (js ''/work/scratchpads/scratch3.js'') exampleText"
  obtain t where q: "requestedSuggestion ?rt (exampleHost []) ?cfg ?doc =
      (Some (Inr (Some (js ''reverse-string-helper''))), t)"
    using example_requested_remote[of "exampleHost []" ?doc]
    by (cases "requestedSuggestion ?rt (exampleHost []) ?cfg ?doc") auto
  have "list_all isProviderEvent t"
    using suggestFilename_events[of ?rt ?cfg "take 6000 (trim (getText ?doc))"
        "extname (exampleHost []) (basename (exampleHost []) (fileName ?doc))"] q
    by (simp add: requestedSuggestion_def)
  then have f: "filter isRenameEvent t = []" by (rule filter_rename_provider)
  have g1: "isScratchpadDocument ?rt (exampleHost []) ?cfg ?doc"
    by (rule example_in_folder)
  have g2: "\<not> int (length (trim (getText ?doc))) < minChars ?cfg"
    by (rule example_gates)
  have g3: "scratchNamePatternTest (orElse (filePrefix ?cfg) (js ''scratch''))
              (currentBaseName (exampleHost []) ?doc)"
    unfolding scratchNamePatternTest_iff by (rule example_gates)
  show ?thesis
    using autoRename_passed[OF g1 g2 g3] by (simp add: q example_after f)
qed

text \<open>
  An attempt whose provider chain never returns makes the calls of the chain and then
  nothing: it renames nothing, and it does not end.
\<close>

lemma autoRename_never_resumes:
  assumes "isScratchpadDocument rt h cfg doc"
    and "\<not> int (length (trim (getText doc))) < minChars cfg"
    and "scratchNamePatternTest (orElse (filePrefix cfg) (js ''scratch'')) (currentBaseName h doc)"
    and "fst (requestedSuggestion rt h cfg doc) = None"
  shows "autoRenameScratchpadFromDocument rt h cfg doc =
           (NeverResumed, snd (requestedSuggestion rt h cfg doc))"
  using assms(4) by (cases "requestedSuggestion rt h cfg doc") (simp add: autoRename_passed[OF
      assms(1-3)])

section \<open>The claims of the specification\<close>

text \<open>
  Claim C1. When the unsuffixed form of the base name is taken, the allocated name is the base
  name, then the lowest positive integer that is not the parsed numeric suffix of an
  existing name of the form base name, digits, dot, extension, then the requested
  extension. The extension plays no part in the number: with \<open>s.js\<close>, \<open>s1.ts\<close>, \<open>s3.sql\<close>
  and \<open>s4.js\<close> the number for base \<open>s\<close> is 2 for every requested extension.
\<close>

theorem allocator_lowest_free_number:
  "((\<exists>f \<in> set files. isUnsuffixedName baseName f) \<longrightarrow>
      finalFilename baseName ext files =
        baseName @ numberToString (LEAST n. 0 < n \<and> n \<notin> numericSuffixes baseName files) @ ext) \<and>
   finalFilename (js ''s'') ext [js ''s.js'', js ''s1.ts'', js ''s3.sql'', js ''s4.js''] = js ''s2''
       @ ext"
proof
  show "(\<exists>f \<in> set files. isUnsuffixedName baseName f) \<longrightarrow>
      finalFilename baseName ext files =
        baseName @ numberToString (LEAST n. 0 < n \<and> n \<notin> numericSuffixes baseName files) @ ext"
    by (simp add: finalFilename_numbered)
  show "finalFilename (js ''s'') ext [js ''s.js'', js ''s1.ts'', js ''s3.sql'', js ''s4.js''] = js
      ''s2'' @ ext"
    by (simp add: allocator_eval)
qed

theorem allocator_lowest_free_number_witness:
  "(\<exists>f \<in> set [js ''s.js'', js ''s1.ts'', js ''s3.sql'', js ''s4.js'']. isUnsuffixedName (js ''s'')
      f) \<and>
   finalFilename (js ''s'') (js ''.py'') [js ''s.js'', js ''s1.ts'', js ''s3.sql'', js ''s4.js''] =
     js ''s'' @ numberToString
       (LEAST n. 0 < n \<and> n \<notin> numericSuffixes (js ''s'') [js ''s.js'', js ''s1.ts'', js ''s3.sql'',
           js ''s4.js'']) @
     js ''.py''"
proof -
  have h: "\<exists>f \<in> set [js ''s.js'', js ''s1.ts'', js ''s3.sql'', js ''s4.js'']. isUnsuffixedName (js
      ''s'') f"
    unfolding basePatternTest_iff[symmetric] by (simp add: allocator_eval)
  show ?thesis
    using h allocator_lowest_free_number[of "[js ''s.js'', js ''s1.ts'', js ''s3.sql'', js
        ''s4.js'']" "js ''s''" "js ''.py''"]
    by blast
qed

text \<open>
  Claim C2. For every input string, and whatever the engine's case mapping does,
  \<open>sanitizeFilename\<close> returns either nothing or a non-empty stem of at most 60 code units
  that matches \<open>^[a-z0-9]+(-[a-z0-9]+)*$\<close>, so it neither begins nor ends with a hyphen. The
  second strip after \<open>slice(0, 60)\<close> matters: 59 letters, a space and a letter are cut after
  the hyphen that replaced the space, and the result is the 59 letters.
\<close>

theorem sanitizeFilename_matches_stem_pattern:
  "(case sanitizeFilename lc input of
      None \<Rightarrow> True
    | Some y \<Rightarrow> y \<noteq> [] \<and> length y \<le> 60 \<and> matchesStemPattern y \<and> hd y \<noteq> 45 \<and> last y \<noteq> 45) \<and>
   sanitizeFilename asciiLower (js
       ''aaaaaaaaaaaaaaaaaaaaaaaaaaaaaaaaaaaaaaaaaaaaaaaaaaaaaaaaaaa b'') =
     Some (js ''aaaaaaaaaaaaaaaaaaaaaaaaaaaaaaaaaaaaaaaaaaaaaaaaaaaaaaaaaaa'')"
proof
  show "case sanitizeFilename lc input of
      None \<Rightarrow> True
    | Some y \<Rightarrow> y \<noteq> [] \<and> length y \<le> 60 \<and> matchesStemPattern y \<and> hd y \<noteq> 45 \<and> last y \<noteq> 45"
    using sanitizeFilename_shape[of lc input]
    by (simp add: isStem_matchesStemPattern split: option.splits)
  show "sanitizeFilename asciiLower (js
      ''aaaaaaaaaaaaaaaaaaaaaaaaaaaaaaaaaaaaaaaaaaaaaaaaaaaaaaaaaaa b'') =
     Some (js ''aaaaaaaaaaaaaaaaaaaaaaaaaaaaaaaaaaaaaaaaaaaaaaaaaaaaaaaaaaa'')"
    by (simp add: sanitize_eval)
qed

text \<open>
  Claim C3. The sanitizer is idempotent on its successes: a stem it returned is returned
  unchanged when it is sanitized again.
\<close>

theorem sanitizeFilename_idempotent:
  assumes "sanitizeFilename lc x = Some y"
  shows "sanitizeFilename lc y = Some y"
proof -
  have "isStem y \<and> length y \<le> 60"
    using sanitizeFilename_shape[of lc x] assms by simp
  then show ?thesis by (simp add: sanitizeFilename_fixes_stems)
qed

theorem sanitizeFilename_idempotent_witness:
  "sanitizeFilename asciiLower (js ''Reverse-String Helper!! .js'') = Some (js
      ''reverse-string-helper'') \<and>
   sanitizeFilename asciiLower (js ''reverse-string-helper'') = Some (js ''reverse-string-helper'')"
proof -
  have h: "sanitizeFilename asciiLower (js ''Reverse-String Helper!! .js'') = Some (js
      ''reverse-string-helper'')"
    by (simp add: sanitize_eval)
  show ?thesis using h sanitizeFilename_idempotent[OF h] by blast
qed

text \<open>
  Claim C4. When no existing name is the base name followed by a dot and an extension, the
  allocated name is the base name with the requested extension and no number. When such a
  name exists and no existing name is the base name followed by digits, a dot and an
  extension, the number is 1.
\<close>

theorem allocator_plain_name_then_one:
  "((\<forall>f \<in> set files. \<not> isUnsuffixedName baseName f) \<longrightarrow>
      finalFilename baseName ext files = baseName @ ext) \<and>
   finalFilename (js ''scratch'') (js ''.md'') [] = js ''scratch.md'' \<and>
   ((\<exists>f \<in> set files. isUnsuffixedName baseName f) \<and>
    (\<forall>f \<in> set files. \<forall>ds. \<not> isNumberedName baseName ds f) \<longrightarrow>
      finalFilename baseName ext files = baseName @ js ''1'' @ ext) \<and>
   finalFilename (js ''scratch'') (js ''.py'') [js ''scratch.md''] = js ''scratch1.py''"
proof (intro conjI)
  show "(\<forall>f \<in> set files. \<not> isUnsuffixedName baseName f) \<longrightarrow>
      finalFilename baseName ext files = baseName @ ext"
    by (simp add: finalFilename_unsuffixed)
  show "finalFilename (js ''scratch'') (js ''.md'') [] = js ''scratch.md''"
    by (simp add: allocator_eval)
  show "(\<exists>f \<in> set files. isUnsuffixedName baseName f) \<and>
    (\<forall>f \<in> set files. \<forall>ds. \<not> isNumberedName baseName ds f) \<longrightarrow>
      finalFilename baseName ext files = baseName @ js ''1'' @ ext"
    using finalFilename_first_number by blast
  show "finalFilename (js ''scratch'') (js ''.py'') [js ''scratch.md''] = js ''scratch1.py''"
    by (simp add: allocator_eval)
qed

theorem allocator_plain_name_then_one_witness:
  "\<not> isUnsuffixedName (js ''scratch'') (js ''notes.txt'') \<and>
   \<not> isUnsuffixedName (js ''scratch'') (js ''scratch7.js'') \<and>
   finalFilename (js ''scratch'') (js ''.md'') [js ''notes.txt'', js ''scratch7.js''] = js
       ''scratch.md'' \<and>
   isUnsuffixedName (js ''scratch'') (js ''scratch.md'') \<and>
   (\<forall>ds. \<not> isNumberedName (js ''scratch'') ds (js ''scratch.md'')) \<and>
   (\<forall>ds. \<not> isNumberedName (js ''scratch'') ds (js ''scratchy2.md'')) \<and>
   finalFilename (js ''scratch'') (js ''.py'') [js ''scratch.md'', js ''scratchy2.md''] = js
       ''scratch1.py''"
proof -
  have h1: "\<not> isUnsuffixedName (js ''scratch'') (js ''notes.txt'')"
    "\<not> isUnsuffixedName (js ''scratch'') (js ''scratch7.js'')"
    unfolding basePatternTest_iff[symmetric] by (simp_all add: allocator_eval)
  have h2: "isUnsuffixedName (js ''scratch'') (js ''scratch.md'')"
    unfolding basePatternTest_iff[symmetric] by (simp add: allocator_eval)
  have h3: "\<forall>ds. \<not> isNumberedName (js ''scratch'') ds (js ''scratch.md'')"
    "\<forall>ds. \<not> isNumberedName (js ''scratch'') ds (js ''scratchy2.md'')"
    unfolding numberedPatternMatch_iff[symmetric] by (simp_all add: allocator_eval)
  show ?thesis
    using h1 h2 h3
      allocator_plain_name_then_one[of "[js ''notes.txt'', js ''scratch7.js'']" "js ''scratch''" "js
          ''.md''"]
      allocator_plain_name_then_one[of "[js ''scratch.md'', js ''scratchy2.md'']" "js ''scratch''"
          "js ''.py''"]
    by (simp add: js_def)
qed

text \<open>
  Claim C5. The provider chain follows the configured order. With provider \<open>vscode\<close> it
  calls the local backend and nothing of the remote one; with \<open>openai\<close> it calls the remote
  backend and nothing of the local one; with \<open>auto\<close> (also when nothing is configured) it
  calls the local backend first and the remote backend exactly when the local result is
  absent, so that a stem from the local backend is returned without any remote call.
\<close>

theorem provider_chain_order:
  "(orElse (renameProvider cfg) (js ''auto'') = js ''vscode'' \<longrightarrow>
      suggestFilename rt cfg content fileExt =
        (Some (fst (suggestWithVSCodeLM rt content fileExt)),
         SuggestWithVSCodeLM content fileExt # snd (suggestWithVSCodeLM rt content fileExt)) \<and>
      \<not> list_ex isRemoteEvent (snd (suggestFilename rt cfg content fileExt))) \<and>
   (orElse (renameProvider cfg) (js ''auto'') = js ''openai'' \<longrightarrow>
      suggestFilename rt cfg content fileExt =
        (fst (suggestWithOpenAI rt cfg content fileExt),
         SuggestWithOpenAI content fileExt # snd (suggestWithOpenAI rt cfg content fileExt)) \<and>
      \<not> list_ex isLocalEvent (snd (suggestFilename rt cfg content fileExt))) \<and>
   (orElse (renameProvider cfg) (js ''auto'') = js ''auto'' \<longrightarrow>
      suggestFilename rt cfg content fileExt =
        (if fst (suggestWithVSCodeLM rt content fileExt) = Inr None
         then (fst (suggestWithOpenAI rt cfg content fileExt),
               SuggestWithVSCodeLM content fileExt # snd (suggestWithVSCodeLM rt content fileExt) @
               SuggestWithOpenAI content fileExt # snd (suggestWithOpenAI rt cfg content fileExt))
         else (Some (fst (suggestWithVSCodeLM rt content fileExt)),
               SuggestWithVSCodeLM content fileExt # snd (suggestWithVSCodeLM rt content fileExt)))
                   \<and>
      (\<forall>stem. fst (suggestWithVSCodeLM rt content fileExt) = Inr (Some stem) \<longrightarrow>
         fst (suggestFilename rt cfg content fileExt) = Some (Inr (Some stem)) \<and>
         \<not> list_ex isRemoteEvent (snd (suggestFilename rt cfg content fileExt))))"
proof (intro conjI impI allI)
  assume p: "orElse (renameProvider cfg) (js ''auto'') = js ''vscode''"
  show "suggestFilename rt cfg content fileExt =
        (Some (fst (suggestWithVSCodeLM rt content fileExt)),
         SuggestWithVSCodeLM content fileExt # snd (suggestWithVSCodeLM rt content fileExt))"
    using p by (rule suggestFilename_vscode)
  then show "\<not> list_ex isRemoteEvent (snd (suggestFilename rt cfg content fileExt))"
    using no_remote_in_local[OF suggestWithVSCodeLM_events[of rt content fileExt]] by simp
next
  assume p: "orElse (renameProvider cfg) (js ''auto'') = js ''openai''"
  show "suggestFilename rt cfg content fileExt =
        (fst (suggestWithOpenAI rt cfg content fileExt),
         SuggestWithOpenAI content fileExt # snd (suggestWithOpenAI rt cfg content fileExt))"
    using p by (rule suggestFilename_openai)
  then show "\<not> list_ex isLocalEvent (snd (suggestFilename rt cfg content fileExt))"
    using no_local_in_remote[OF suggestWithOpenAI_events[of rt cfg content fileExt]] by simp
next
  assume p: "orElse (renameProvider cfg) (js ''auto'') = js ''auto''"
  show "suggestFilename rt cfg content fileExt =
        (if fst (suggestWithVSCodeLM rt content fileExt) = Inr None
         then (fst (suggestWithOpenAI rt cfg content fileExt),
               SuggestWithVSCodeLM content fileExt # snd (suggestWithVSCodeLM rt content fileExt) @
               SuggestWithOpenAI content fileExt # snd (suggestWithOpenAI rt cfg content fileExt))
         else (Some (fst (suggestWithVSCodeLM rt content fileExt)),
               SuggestWithVSCodeLM content fileExt # snd (suggestWithVSCodeLM rt content fileExt)))"
    using p by (rule suggestFilename_auto)
next
  fix stem
  assume p: "orElse (renameProvider cfg) (js ''auto'') = js ''auto''"
    and l: "fst (suggestWithVSCodeLM rt content fileExt) = Inr (Some stem)"
  have e: "suggestFilename rt cfg content fileExt =
        (Some (Inr (Some stem)),
         SuggestWithVSCodeLM content fileExt # snd (suggestWithVSCodeLM rt content fileExt))"
    using suggestFilename_auto[OF p, of rt content fileExt] l by simp
  show "fst (suggestFilename rt cfg content fileExt) = Some (Inr (Some stem))" using e by simp
  show "\<not> list_ex isRemoteEvent (snd (suggestFilename rt cfg content fileExt))"
    using e no_remote_in_local[OF suggestWithVSCodeLM_events[of rt content fileExt]] by simp
qed

theorem provider_chain_order_witness:
  "orElse (renameProvider (exampleConfig (Some (js ''vscode'')) (Some (js ''sk-1'')))) (js ''auto'')
      = js ''vscode'' \<and>
   \<not> list_ex isRemoteEvent (snd (suggestFilename
       (exampleRuntime (Some (exampleSelect [js ''Reverse-'', js ''String Helper''])) TimedOut
           (\<lambda>s. None))
       (exampleConfig (Some (js ''vscode'')) (Some (js ''sk-1''))) (js ''let x = 1'') (js ''.js'')))
           \<and>
   orElse (renameProvider (exampleConfig (Some (js ''openai'')) (Some (js ''sk-1'')))) (js ''auto'')
       = js ''openai'' \<and>
   \<not> list_ex isLocalEvent (snd (suggestFilename
       (exampleRuntime (Some (exampleSelect [js ''Reverse-'', js ''String Helper''])) TimedOut
           (\<lambda>s. None))
       (exampleConfig (Some (js ''openai'')) (Some (js ''sk-1''))) (js ''let x = 1'') (js ''.js'')))
           \<and>
   orElse (renameProvider (exampleConfig None (Some (js ''sk-1'')))) (js ''auto'') = js ''auto'' \<and>
   fst (suggestWithVSCodeLM
       (exampleRuntime (Some (exampleSelect [js ''Reverse-'', js ''String Helper''])) TimedOut
           (\<lambda>s. None))
       (js ''let x = 1'') (js ''.js'')) = Inr (Some (js ''reverse-string-helper'')) \<and>
   fst (suggestFilename
       (exampleRuntime (Some (exampleSelect [js ''Reverse-'', js ''String Helper''])) TimedOut
           (\<lambda>s. None))
       (exampleConfig None (Some (js ''sk-1''))) (js ''let x = 1'') (js ''.js'')) = Some (Inr (Some
           (js ''reverse-string-helper''))) \<and>
   \<not> list_ex isRemoteEvent (snd (suggestFilename
       (exampleRuntime (Some (exampleSelect [js ''Reverse-'', js ''String Helper''])) TimedOut
           (\<lambda>s. None))
       (exampleConfig None (Some (js ''sk-1''))) (js ''let x = 1'') (js ''.js'')))"
proof -
  let ?rt = "exampleRuntime (Some (exampleSelect [js ''Reverse-'', js ''String Helper''])) TimedOut
      (\<lambda>s. None)"
  have h1: "orElse (renameProvider (exampleConfig (Some (js ''vscode'')) (Some (js ''sk-1'')))) (js
      ''auto'') = js ''vscode''"
    by (rule exampleConfig_provider)
  have h2: "orElse (renameProvider (exampleConfig (Some (js ''openai'')) (Some (js ''sk-1'')))) (js
      ''auto'') = js ''openai''"
    by (rule exampleConfig_provider)
  have h3: "orElse (renameProvider (exampleConfig None (Some (js ''sk-1'')))) (js ''auto'') = js
      ''auto''"
    by (rule exampleConfig_provider)
  have h4: "fst (suggestWithVSCodeLM ?rt (js ''let x = 1'') (js ''.js'')) = Inr (Some (js
      ''reverse-string-helper''))"
    by (rule exampleLocal_result)
  note a = provider_chain_order[of "exampleConfig (Some (js ''vscode'')) (Some (js ''sk-1''))" ?rt
      "js ''let x = 1''" "js ''.js''"]
  note b = provider_chain_order[of "exampleConfig (Some (js ''openai'')) (Some (js ''sk-1''))" ?rt
      "js ''let x = 1''" "js ''.js''"]
  note c = provider_chain_order[of "exampleConfig None (Some (js ''sk-1''))" ?rt "js ''let x = 1''"
      "js ''.js''"]
  from a h1 have 1: "\<not> list_ex isRemoteEvent (snd (suggestFilename ?rt
       (exampleConfig (Some (js ''vscode'')) (Some (js ''sk-1''))) (js ''let x = 1'') (js
           ''.js'')))" by blast
  from b h2 have 2: "\<not> list_ex isLocalEvent (snd (suggestFilename ?rt
       (exampleConfig (Some (js ''openai'')) (Some (js ''sk-1''))) (js ''let x = 1'') (js
           ''.js'')))" by blast
  from c h3 h4 have 3: "fst (suggestFilename ?rt
       (exampleConfig None (Some (js ''sk-1''))) (js ''let x = 1'') (js ''.js'')) = Some (Inr (Some
           (js ''reverse-string-helper''))) \<and>
   \<not> list_ex isRemoteEvent (snd (suggestFilename ?rt
       (exampleConfig None (Some (js ''sk-1''))) (js ''let x = 1'') (js ''.js'')))" by blast
  show ?thesis using h1 h2 h3 h4 1 2 3 by blast
qed

text \<open>
  Claim C6. The backends let no exception reach their caller, and every failure makes them
  return nothing. The remote backend does not do so for one failure of the network. When
  the response has begun and the connection closes before the response has ended, neither
  listener of \<open>postJSON\<close> is called, its promise is never settled, and the backend, which
  awaits it, returns neither nothing nor anything else; the provider chain, which awaits
  the backend, does not return either. Here the API has answered with status 200 and the
  first character of its body when the connection closes.
\<close>

theorem remote_backend_hangs_on_interrupted_response:
  "suggestWithOpenAI (exampleRuntime None (Interrupted (Some 200) (js ''{'')) (\<lambda>s. None))
      (exampleConfig (Some (js ''openai'')) (Some (js ''sk-1''))) (js ''let x = 1'') (js ''.js'') =
     (None,
      [HttpsRequest (js ''https://api.openai.com/v1/chat/completions'')
         (openAIPayload (js ''gpt-5-mini'') (js ''let x = 1'') (js ''.js''))
         [(js ''Authorization'', js ''Bearer sk-1'')] 10000]) \<and>
   fst (suggestFilename (exampleRuntime None (Interrupted (Some 200) (js ''{'')) (\<lambda>s. None))
      (exampleConfig (Some (js ''openai'')) (Some (js ''sk-1''))) (js ''let x = 1'') (js ''.js'')) =
     None"
proof
  show r: "suggestWithOpenAI (exampleRuntime None (Interrupted (Some 200) (js ''{'')) (\<lambda>s. None))
      (exampleConfig (Some (js ''openai'')) (Some (js ''sk-1''))) (js ''let x = 1'') (js ''.js'') =
     (None,
      [HttpsRequest (js ''https://api.openai.com/v1/chat/completions'')
         (openAIPayload (js ''gpt-5-mini'') (js ''let x = 1'') (js ''.js''))
         [(js ''Authorization'', js ''Bearer sk-1'')] 10000])"
    by (simp add: example_request example_postJSON timeoutMs_def)
  show "fst (suggestFilename (exampleRuntime None (Interrupted (Some 200) (js ''{'')) (\<lambda>s. None))
      (exampleConfig (Some (js ''openai'')) (Some (js ''sk-1''))) (js ''let x = 1'') (js ''.js'')) =
     None"
    by (simp add: suggestFilename_openai[OF exampleConfig_provider(2)] r)
qed


text \<open>
  Claim C8. An attempt whose document fails an early gate is a no-op: when the document's
  directory is neither the scratchpad folder nor inside it, or its trimmed text is shorter
  than the configured minimum (20 by default), or its base name is not the configured
  prefix followed by optional digits, the attempt makes no call at all, so the provider
  chain is not invoked and nothing is renamed.
\<close>

theorem early_gates_stop_the_attempt:
  assumes "\<not> isScratchpadDocument rt h cfg doc \<or>
           int (length (trim (getText doc))) < configuredMinimum cfg \<or>
           \<not> isAutoManagedName (orElse (filePrefix cfg) (js ''scratch'')) (currentBaseName h doc)"
  shows "snd (autoRenameScratchpadFromDocument rt h cfg doc) = [] \<and>
         \<not> list_ex isProviderEvent (snd (autoRenameScratchpadFromDocument rt h cfg doc)) \<and>
         \<not> list_ex isRenameEvent (snd (autoRenameScratchpadFromDocument rt h cfg doc)) \<and>
         fst (autoRenameScratchpadFromDocument rt h cfg doc) \<in>
           {NotAScratchpad, BelowMinChars, NotAutoNamed}"
proof -
  have "\<not> isScratchpadDocument rt h cfg doc \<or>
           int (length (trim (getText doc))) < minChars cfg \<or>
           \<not> scratchNamePatternTest (orElse (filePrefix cfg) (js ''scratch'')) (currentBaseName h
               doc)"
    using assms minChars_le[of "length (trim (getText doc))" cfg]
    by (auto simp: scratchNamePatternTest_iff)
  from autoRename_gated[OF this] show ?thesis by simp
qed

theorem early_gates_stop_the_attempt_witness:
  "\<not> isScratchpadDocument
       (exampleRuntime (Some (exampleSelect [js ''Reverse-'', js ''String Helper''])) TimedOut
           (\<lambda>s. None))
       (exampleHost []) defaultConfig
       (exampleDocument (js ''/work/other/scratch3.js'') exampleText) \<and>
   snd (autoRenameScratchpadFromDocument
       (exampleRuntime (Some (exampleSelect [js ''Reverse-'', js ''String Helper''])) TimedOut
           (\<lambda>s. None))
       (exampleHost []) defaultConfig
       (exampleDocument (js ''/work/other/scratch3.js'') exampleText)) = [] \<and>
   int (length (trim (getText (exampleDocument (js ''/work/scratchpads/scratch3.js'') (js
       ''let x = 1'')))))
     < configuredMinimum defaultConfig \<and>
   snd (autoRenameScratchpadFromDocument
       (exampleRuntime (Some (exampleSelect [js ''Reverse-'', js ''String Helper''])) TimedOut
           (\<lambda>s. None))
       (exampleHost []) defaultConfig
       (exampleDocument (js ''/work/scratchpads/scratch3.js'') (js ''let x = 1''))) = [] \<and>
   \<not> isAutoManagedName (orElse (filePrefix defaultConfig) (js ''scratch''))
       (currentBaseName (exampleHost []) (exampleDocument (js ''/work/scratchpads/notes.js'')
           exampleText)) \<and>
   snd (autoRenameScratchpadFromDocument
       (exampleRuntime (Some (exampleSelect [js ''Reverse-'', js ''String Helper''])) TimedOut
           (\<lambda>s. None))
       (exampleHost []) defaultConfig
       (exampleDocument (js ''/work/scratchpads/notes.js'') exampleText)) = []"
proof -
  let ?rt = "exampleRuntime (Some (exampleSelect [js ''Reverse-'', js ''String Helper''])) TimedOut
      (\<lambda>s. None)"
  let ?h = "exampleHost []"
  let ?cfg = "exampleConfig None None"
  have h1: "\<not> isScratchpadDocument ?rt ?h ?cfg (exampleDocument (js ''/work/other/scratch3.js'')
      exampleText)"
    by (rule example_in_folder)
  have h2: "int (length (trim (getText (exampleDocument (js ''/work/scratchpads/scratch3.js'') (js
      ''let x = 1'')))))
     < configuredMinimum ?cfg"
    by (simp add: exampleDocument_fields example_lengths)
  have h3: "\<not> isAutoManagedName (orElse (filePrefix ?cfg) (js ''scratch''))
       (currentBaseName ?h (exampleDocument (js ''/work/scratchpads/notes.js'') exampleText))"
    by (simp add: scratchNamePatternTest_iff[symmetric] example_base_names example_names)
  have 1: "snd (autoRenameScratchpadFromDocument ?rt ?h ?cfg
             (exampleDocument (js ''/work/other/scratch3.js'') exampleText)) = []"
    using early_gates_stop_the_attempt[of ?rt ?h ?cfg "exampleDocument (js
        ''/work/other/scratch3.js'') exampleText"] h1
    by blast
  have 2: "snd (autoRenameScratchpadFromDocument ?rt ?h ?cfg
             (exampleDocument (js ''/work/scratchpads/scratch3.js'') (js ''let x = 1''))) = []"
    using early_gates_stop_the_attempt[of ?rt ?h ?cfg "exampleDocument (js
        ''/work/scratchpads/scratch3.js'') (js ''let x = 1'')"] h2
    by blast
  have 3: "snd (autoRenameScratchpadFromDocument ?rt ?h ?cfg
             (exampleDocument (js ''/work/scratchpads/notes.js'') exampleText)) = []"
    using early_gates_stop_the_attempt[of ?rt ?h ?cfg "exampleDocument (js
        ''/work/scratchpads/notes.js'') exampleText"] h3
    by blast
  show ?thesis using h1 h2 h3 1 2 3 by blast
qed

text \<open>
  Claim C9. An attempt that has passed the gates and asked the provider chain makes no
  rename call when the suggestion is absent, or equals the current base name, or leads to a
  destination whose normalised path is the normalised current path, or leads to a
  destination that already exists: its calls are those of the provider chain and nothing
  else, so the file keeps its name and an existing destination is left alone.
\<close>

theorem no_rename_without_fresh_destination:
  assumes "isScratchpadDocument rt h cfg doc"
    and "\<not> int (length (trim (getText doc))) < minChars cfg"
    and "isAutoManagedName (orElse (filePrefix cfg) (js ''scratch'')) (currentBaseName h doc)"
    and "fst (requestedSuggestion rt h cfg doc) = Some (Inr suggestion)"
    and "suggestion = None \<or> suggestion = Some (currentBaseName h doc) \<or>
           (\<exists>s. suggestion = Some s \<and>
              (normalizePath rt h (destinationPath h doc s) = normalizePath rt h (fileName doc) \<or>
               existsSync h (destinationPath h doc s)))"
  shows "snd (autoRenameScratchpadFromDocument rt h cfg doc) = snd (requestedSuggestion rt h cfg
      doc) \<and>
         \<not> list_ex isRenameEvent (snd (autoRenameScratchpadFromDocument rt h cfg doc)) \<and>
         fst (autoRenameScratchpadFromDocument rt h cfg doc) \<in>
           {EmptyOrUnchanged, SamePath, DestinationExists}"
  using assms(1,2) assms(3)[folded scratchNamePatternTest_iff] assms(4,5)
  by (rule no_rename_when_stopped)

theorem no_rename_without_fresh_destination_witness:
  "fst (requestedSuggestion exampleBareRuntime (exampleHost []) defaultConfig scratch3js) = Some
      (Inr None) \<and>
   \<not> list_ex isRenameEvent (snd (autoRenameScratchpadFromDocument exampleBareRuntime (exampleHost
       []) defaultConfig scratch3js)) \<and>
   fst (requestedSuggestion (exampleLMRuntime [js ''scratch3'']) (exampleHost []) defaultConfig
       scratch3js) = Some (Inr (Some (js ''scratch3''))) \<and>
   currentBaseName (exampleHost []) scratch3js = js ''scratch3'' \<and>
   \<not> list_ex isRenameEvent (snd (autoRenameScratchpadFromDocument (exampleLMRuntime [js
       ''scratch3'']) (exampleHost []) defaultConfig scratch3js)) \<and>
   fst (requestedSuggestion helperRuntime (exampleHost [js
       ''/work/scratchpads/reverse-string-helper.js'']) defaultConfig scratch3js) = Some (Inr (Some
       (js ''reverse-string-helper''))) \<and>
   existsSync (exampleHost [js ''/work/scratchpads/reverse-string-helper.js'']) (destinationPath
       (exampleHost [js ''/work/scratchpads/reverse-string-helper.js'']) scratch3js (js
       ''reverse-string-helper'')) \<and>
   \<not> list_ex isRenameEvent (snd (autoRenameScratchpadFromDocument helperRuntime (exampleHost [js
       ''/work/scratchpads/reverse-string-helper.js'']) defaultConfig scratch3js)) \<and>
   fst (requestedSuggestion (exampleLMRuntime [js ''scratch3'']) exampleCaseBlindHost
       exampleCapitalConfig (exampleDocument (js ''/work/scratchpads/Scratch3.js'') exampleText)) =
       Some (Inr (Some (js ''scratch3''))) \<and>
   normalizePath (exampleLMRuntime [js ''scratch3'']) exampleCaseBlindHost (destinationPath
       exampleCaseBlindHost (exampleDocument (js ''/work/scratchpads/Scratch3.js'') exampleText) (js
       ''scratch3'')) = normalizePath (exampleLMRuntime [js ''scratch3'']) exampleCaseBlindHost
       (fileName (exampleDocument (js ''/work/scratchpads/Scratch3.js'') exampleText)) \<and>
   \<not> list_ex isRenameEvent (snd (autoRenameScratchpadFromDocument (exampleLMRuntime [js
       ''scratch3'']) exampleCaseBlindHost exampleCapitalConfig (exampleDocument (js
       ''/work/scratchpads/Scratch3.js'') exampleText)))"
proof -
  have a1: "isScratchpadDocument exampleBareRuntime (exampleHost []) defaultConfig scratch3js"
    by (rule example_in_folder)
  have a2: "\<not> int (length (trim (getText scratch3js))) < minChars defaultConfig"
    by (rule example_gates)
  have a3: "isAutoManagedName (orElse (filePrefix defaultConfig) (js ''scratch'')) (currentBaseName
      (exampleHost []) scratch3js)"
    by (rule example_gates)
  have a4: "fst (requestedSuggestion exampleBareRuntime (exampleHost []) defaultConfig scratch3js) =
      Some (Inr None)"
    by (rule example_requested_absent)
  have a6: "(None::jsstring option) = None \<or> None = Some (currentBaseName (exampleHost [])
      scratch3js) \<or> (\<exists>s. None = Some s \<and> (normalizePath exampleBareRuntime (exampleHost [])
      (destinationPath (exampleHost []) scratch3js s) = normalizePath exampleBareRuntime
      (exampleHost []) (fileName scratch3js) \<or> existsSync (exampleHost []) (destinationPath
      (exampleHost []) scratch3js s)))"
    by simp
  note a7 = no_rename_without_fresh_destination[OF a1 a2 a3 a4 a6]
  have a8: "\<not> list_ex isRenameEvent (snd (autoRenameScratchpadFromDocument exampleBareRuntime
      (exampleHost []) defaultConfig scratch3js))"
    using a7 by blast
  have b1: "isScratchpadDocument (exampleLMRuntime [js ''scratch3'']) (exampleHost []) defaultConfig
      scratch3js"
    by (rule example_in_folder)
  have b2: "\<not> int (length (trim (getText scratch3js))) < minChars defaultConfig"
    by (rule example_gates)
  have b3: "isAutoManagedName (orElse (filePrefix defaultConfig) (js ''scratch'')) (currentBaseName
      (exampleHost []) scratch3js)"
    by (rule example_gates)
  have b4: "fst (requestedSuggestion (exampleLMRuntime [js ''scratch3'']) (exampleHost [])
      defaultConfig scratch3js) = Some (Inr (Some (js ''scratch3'')))"
    by (rule example_requested_local) (rule example_stems)
  have b5: "currentBaseName (exampleHost []) scratch3js = js ''scratch3''"
    by (rule example_base_names)
  have b6: "Some (js ''scratch3'') = None \<or> Some (js ''scratch3'') = Some (currentBaseName
      (exampleHost []) scratch3js) \<or> (\<exists>s. Some (js ''scratch3'') = Some s \<and> (normalizePath
      (exampleLMRuntime [js ''scratch3'']) (exampleHost []) (destinationPath (exampleHost [])
      scratch3js s) = normalizePath (exampleLMRuntime [js ''scratch3'']) (exampleHost []) (fileName
      scratch3js) \<or> existsSync (exampleHost []) (destinationPath (exampleHost []) scratch3js s)))"
    using b5 by simp
  note b7 = no_rename_without_fresh_destination[OF b1 b2 b3 b4 b6]
  have b8: "\<not> list_ex isRenameEvent (snd (autoRenameScratchpadFromDocument (exampleLMRuntime [js
      ''scratch3'']) (exampleHost []) defaultConfig scratch3js))"
    using b7 by blast
  have c1: "isScratchpadDocument helperRuntime (exampleHost [js
      ''/work/scratchpads/reverse-string-helper.js'']) defaultConfig scratch3js"
    by (rule example_in_folder)
  have c2: "\<not> int (length (trim (getText scratch3js))) < minChars defaultConfig"
    by (rule example_gates)
  have c3: "isAutoManagedName (orElse (filePrefix defaultConfig) (js ''scratch'')) (currentBaseName
      (exampleHost [js ''/work/scratchpads/reverse-string-helper.js'']) scratch3js)"
    by (rule example_gates)
  have c4: "fst (requestedSuggestion helperRuntime (exampleHost [js
      ''/work/scratchpads/reverse-string-helper.js'']) defaultConfig scratch3js) = Some (Inr (Some
      (js ''reverse-string-helper'')))"
    by (rule example_requested_local) (rule example_stems)
  have c5: "existsSync (exampleHost [js ''/work/scratchpads/reverse-string-helper.js''])
      (destinationPath (exampleHost [js ''/work/scratchpads/reverse-string-helper.js'']) scratch3js
      (js ''reverse-string-helper''))"
    by (simp add: example_exists example_destinations)
  have c6: "Some (js ''reverse-string-helper'') = None \<or> Some (js ''reverse-string-helper'') = Some
      (currentBaseName (exampleHost [js ''/work/scratchpads/reverse-string-helper.js'']) scratch3js)
      \<or> (\<exists>s. Some (js ''reverse-string-helper'') = Some s \<and> (normalizePath helperRuntime
      (exampleHost [js ''/work/scratchpads/reverse-string-helper.js'']) (destinationPath
      (exampleHost [js ''/work/scratchpads/reverse-string-helper.js'']) scratch3js s) =
      normalizePath helperRuntime (exampleHost [js ''/work/scratchpads/reverse-string-helper.js''])
      (fileName scratch3js) \<or> existsSync (exampleHost [js
      ''/work/scratchpads/reverse-string-helper.js'']) (destinationPath (exampleHost [js
      ''/work/scratchpads/reverse-string-helper.js'']) scratch3js s)))"
    using c5 by simp
  note c7 = no_rename_without_fresh_destination[OF c1 c2 c3 c4 c6]
  have c8: "\<not> list_ex isRenameEvent (snd (autoRenameScratchpadFromDocument helperRuntime
      (exampleHost [js ''/work/scratchpads/reverse-string-helper.js'']) defaultConfig scratch3js))"
    using c7 by blast
  have d1: "isScratchpadDocument (exampleLMRuntime [js ''scratch3'']) exampleCaseBlindHost
      exampleCapitalConfig (exampleDocument (js ''/work/scratchpads/Scratch3.js'') exampleText)"
    by (rule caseBlind_facts)
  have d2: "\<not> int (length (trim (getText (exampleDocument (js ''/work/scratchpads/Scratch3.js'')
      exampleText)))) < minChars exampleCapitalConfig"
    by (rule caseBlind_facts)
  have d3: "isAutoManagedName (orElse (filePrefix exampleCapitalConfig) (js ''scratch''))
      (currentBaseName exampleCaseBlindHost (exampleDocument (js ''/work/scratchpads/Scratch3.js'')
      exampleText))"
    by (rule caseBlind_facts)
  have d4: "fst (requestedSuggestion (exampleLMRuntime [js ''scratch3'']) exampleCaseBlindHost
      exampleCapitalConfig (exampleDocument (js ''/work/scratchpads/Scratch3.js'') exampleText)) =
      Some (Inr (Some (js ''scratch3'')))"
    by (rule caseBlind_facts)
  have d5: "normalizePath (exampleLMRuntime [js ''scratch3'']) exampleCaseBlindHost (destinationPath
      exampleCaseBlindHost (exampleDocument (js ''/work/scratchpads/Scratch3.js'') exampleText) (js
      ''scratch3'')) = normalizePath (exampleLMRuntime [js ''scratch3'']) exampleCaseBlindHost
      (fileName (exampleDocument (js ''/work/scratchpads/Scratch3.js'') exampleText))"
    by (rule caseBlind_facts)
  have d6: "Some (js ''scratch3'') = None \<or> Some (js ''scratch3'') = Some (currentBaseName
      exampleCaseBlindHost (exampleDocument (js ''/work/scratchpads/Scratch3.js'') exampleText))
      \<or> (\<exists>s. Some (js ''scratch3'') = Some s \<and> (normalizePath (exampleLMRuntime [js ''scratch3''])
      exampleCaseBlindHost (destinationPath exampleCaseBlindHost (exampleDocument (js
      ''/work/scratchpads/Scratch3.js'') exampleText) s) = normalizePath (exampleLMRuntime [js
      ''scratch3'']) exampleCaseBlindHost (fileName (exampleDocument (js
      ''/work/scratchpads/Scratch3.js'') exampleText)) \<or> existsSync exampleCaseBlindHost
      (destinationPath exampleCaseBlindHost (exampleDocument (js ''/work/scratchpads/Scratch3.js'')
      exampleText) s)))"
    using d5 by simp
  note d7 = no_rename_without_fresh_destination[OF d1 d2 d3 d4 d6]
  have d8: "\<not> list_ex isRenameEvent (snd (autoRenameScratchpadFromDocument (exampleLMRuntime [js
      ''scratch3'']) exampleCaseBlindHost exampleCapitalConfig (exampleDocument (js
      ''/work/scratchpads/Scratch3.js'') exampleText)))"
    using d7 by blast
  show ?thesis
    using a4 a8 b4 b5 b8 c4 c5 c8 d4 d5 d8 by blast
qed

text \<open>
  Claim C10. \<open>buildFinalFilename\<close> returns the base name followed by what \<open>path.extname\<close>
  gives for the current path, and the base name alone when that is empty. Every rename that
  an automatic attempt makes moves the document's file to the suggested stem with the
  extension of the current path appended; for a path without extension the destination
  name is the stem itself, which has no dot.
\<close>

theorem buildFinalFilename_keeps_extension:
  "buildFinalFilename h baseName currentFilePath = baseName @ extname h currentFilePath \<and>
   (extname h currentFilePath = [] \<longrightarrow> buildFinalFilename h baseName currentFilePath = baseName) \<and>
   (RenameFile a b \<in> set (snd (autoRenameScratchpadFromDocument rt h cfg doc)) \<longrightarrow>
      a = fileName doc \<and>
      (\<exists>stem. fst (requestedSuggestion rt h cfg doc) = Some (Inr (Some stem)) \<and>
         matchesStemPattern stem \<and> 46 \<notin> set stem \<and>
         b = getScratchpadFilePath h (stem @ extname h (fileName doc)) \<and>
         (extname h (fileName doc) = [] \<longrightarrow> b = getScratchpadFilePath h stem)))"
proof (intro conjI impI)
  show "buildFinalFilename h baseName currentFilePath = baseName @ extname h currentFilePath"
    by (simp add: buildFinalFilename_def)
  show "buildFinalFilename h baseName currentFilePath = baseName" if "extname h currentFilePath =
      []"
    using that by (simp add: buildFinalFilename_def)
next
  assume r: "RenameFile a b \<in> set (snd (autoRenameScratchpadFromDocument rt h cfg doc))"
  then show "a = fileName doc" using autoRename_rename_events by blast
  from r obtain stem where s: "fst (requestedSuggestion rt h cfg doc) = Some (Inr (Some stem))"
    "b = destinationPath h doc stem"
    using autoRename_rename_events by blast
  have st: "isStem stem" using s(1) suggestFilename_stem unfolding requestedSuggestion_def by blast
  then have "matchesStemPattern stem" by (simp add: isStem_matchesStemPattern)
  moreover have "46 \<notin> set stem"
    using st stemChar_facts(6) by (auto simp: isStem_iff list_all_iff)
  moreover have "b = getScratchpadFilePath h (stem @ extname h (fileName doc))"
    using s(2) by (simp add: destinationPath_def buildFinalFilename_def)
  ultimately show "\<exists>stem. fst (requestedSuggestion rt h cfg doc) = Some (Inr (Some stem)) \<and>
         matchesStemPattern stem \<and> 46 \<notin> set stem \<and>
         b = getScratchpadFilePath h (stem @ extname h (fileName doc)) \<and>
         (extname h (fileName doc) = [] \<longrightarrow> b = getScratchpadFilePath h stem)"
    using s(1) by auto
qed

theorem buildFinalFilename_keeps_extension_witness:
  "extname (exampleHost []) (js ''/work/scratchpads/scratch3'') = [] \<and>
   buildFinalFilename (exampleHost []) (js ''reverse-string-helper'') (js
       ''/work/scratchpads/scratch3'') =
     js ''reverse-string-helper'' \<and>
   RenameFile (js ''/work/scratchpads/scratch3'') (js ''/work/scratchpads/reverse-string-helper'')
     \<in> set (snd (autoRenameScratchpadFromDocument
                   helperRuntime (exampleHost [])
                   defaultConfig
                   scratch3plain)) \<and>
   (\<exists>stem. fst (requestedSuggestion
                   helperRuntime (exampleHost [])
                   defaultConfig
                   scratch3plain) = Some (Inr (Some stem)) \<and>
           46 \<notin> set stem \<and>
           js ''/work/scratchpads/reverse-string-helper'' = getScratchpadFilePath (exampleHost [])
               stem)"
proof -
  let ?rt = "exampleLMRuntime [js ''Reverse-'', js ''String Helper'']"
  let ?h = "exampleHost []"
  let ?cfg = "exampleConfig None None"
  let ?doc = "exampleDocument (js ''/work/scratchpads/scratch3'') exampleText"
  have e: "extname ?h (js ''/work/scratchpads/scratch3'') = []" by (rule example_extnames)
  have s: "fst (requestedSuggestion ?rt ?h ?cfg ?doc) = Some (Inr (Some (js
      ''reverse-string-helper'')))"
    by (rule example_requested_local) (rule example_stems)
  have m: "RenameFile (js ''/work/scratchpads/scratch3'') (js
      ''/work/scratchpads/reverse-string-helper'')
     \<in> set (snd (autoRenameScratchpadFromDocument ?rt ?h ?cfg ?doc))"
    by (simp add: example_renamed[OF s])
  note t = buildFinalFilename_keeps_extension[of ?h "js ''reverse-string-helper''"
      "js ''/work/scratchpads/scratch3''" "js ''/work/scratchpads/scratch3''"
      "js ''/work/scratchpads/reverse-string-helper''" ?rt ?cfg ?doc]
  have 1: "buildFinalFilename ?h (js ''reverse-string-helper'') (js ''/work/scratchpads/scratch3'')
      =
     js ''reverse-string-helper''"
    using t e by blast
  have 2: "\<exists>stem. fst (requestedSuggestion ?rt ?h ?cfg ?doc) = Some (Inr (Some stem)) \<and> 46 \<notin> set
      stem \<and>
           js ''/work/scratchpads/reverse-string-helper'' = getScratchpadFilePath ?h stem"
    using t m e by (auto simp: exampleDocument_fields)
  show ?thesis using e 1 m 2 by blast
qed

end
